theory Spec2Isabelle
  imports Main "HOL-Library.Word" "HOL-Library.Signed_Division"
begin

unbundle bit_operations_syntax

section \<open>The emulator state\<close>

text \<open>
  The emulator \<open>em.c\<close> is a 32-bit program: guest addresses, registers and host
  pointers are all \<open>uint\<close> values, modelled as 32-bit words whose arithmetic wraps.
  Host memory is a function from host address to byte; guest physical memory is the
  region starting at host address \<open>memory\<close>. The four translation tables are separate
  host allocations indexed by virtual page number, modelled as functions from the index
  to the entry. \<open>tpage\<close> is the array of populated page numbers, a function from the
  index to the element, with its counter \<open>tpages\<close>; the counter never exceeds
  \<open>TPAGES\<close> in a state the emulator reaches, so it is a natural number.
  The two pointers \<open>currentReadPageTable\<close> and \<open>currentWritePageTable\<close> name one of
  the kernel or user tables.

  The floating-point register \<open>f\<close> is a C \<open>double\<close>. No arithmetic on it is modelled: the
  register is carried as the two images that the stores write, the eight bytes of the
  \<open>double\<close> and the four bytes of its conversion to \<open>float\<close>.

  \<open>libc_memcmp\<close> is the \<open>memcmp\<close> of the host's C library, which the source calls and
  does not define, and of whose result C fixes only the sign: it is a parameter of the
  machine.
\<close>

type_synonym u8 = "8 word"
type_synonym u32 = "32 word"
type_synonym u64 = "64 word"

abbreviation (input) TPAGES :: nat where "TPAGES \<equiv> 4096"

abbreviation (input) PTE_P :: u32 where "PTE_P \<equiv> 0x001"
abbreviation (input) PTE_W :: u32 where "PTE_W \<equiv> 0x002"
abbreviation (input) PTE_U :: u32 where "PTE_U \<equiv> 0x004"
abbreviation (input) PTE_A :: u32 where "PTE_A \<equiv> 0x020"
abbreviation (input) PTE_D :: u32 where "PTE_D \<equiv> 0x040"

abbreviation (input) FMEM :: u32 where "FMEM \<equiv> 0"
abbreviation (input) FTIMER :: u32 where "FTIMER \<equiv> 1"
abbreviation (input) FKEYBD :: u32 where "FKEYBD \<equiv> 2"
abbreviation (input) FPRIV :: u32 where "FPRIV \<equiv> 3"
abbreviation (input) FINST :: u32 where "FINST \<equiv> 4"
abbreviation (input) FSYS :: u32 where "FSYS \<equiv> 5"
abbreviation (input) FARITH :: u32 where "FARITH \<equiv> 6"
abbreviation (input) FIPAGE :: u32 where "FIPAGE \<equiv> 7"
abbreviation (input) FWPAGE :: u32 where "FWPAGE \<equiv> 8"
abbreviation (input) FRPAGE :: u32 where "FRPAGE \<equiv> 9"
abbreviation (input) USER :: u32 where "USER \<equiv> 16"

datatype table_ring = KernelTables | UserTables

record freg =
  as_double :: u64
  as_float :: u32

record machine =
  memory :: u32
  memorySize :: u32
  user :: u32
  iena :: u32
  ipend :: u32
  trap :: u32
  ivec :: u32
  vadr :: u32
  virtualMemoryEnabled :: u32
  pageDirectory :: u32
  tpage :: "nat \<Rightarrow> u32"
  tpages :: nat
  kernelReadPageTable :: "u32 \<Rightarrow> u32"
  kernelWritePageTable :: "u32 \<Rightarrow> u32"
  userReadPageTable :: "u32 \<Rightarrow> u32"
  userWritePageTable :: "u32 \<Rightarrow> u32"
  currentReadPageTable :: table_ring
  currentWritePageTable :: table_ring
  host :: "u32 \<Rightarrow> u8"
  reg_a :: u32
  reg_b :: u32
  reg_c :: u32
  ssp :: u32
  usp :: u32
  xsp :: u32
  tsp :: u32
  fsp :: u32
  xpc :: u32
  tpc :: u32
  xcycle :: u32
  reg_f :: freg
  libc_memcmp :: "(u32 \<Rightarrow> u8) \<Rightarrow> u32 \<Rightarrow> u32 \<Rightarrow> u32 \<Rightarrow> u32"

subsection \<open>Host memory access (little-endian)\<close>

definition load32 :: "(u32 \<Rightarrow> u8) \<Rightarrow> u32 \<Rightarrow> u32" where
  "load32 h p = ucast (h p) OR push_bit 8 (ucast (h (p + 1)))
     OR push_bit 16 (ucast (h (p + 2))) OR push_bit 24 (ucast (h (p + 3)))"

definition store32 :: "(u32 \<Rightarrow> u8) \<Rightarrow> u32 \<Rightarrow> u32 \<Rightarrow> u32 \<Rightarrow> u8" where
  "store32 h p w = h(p := ucast w, p + 1 := ucast (drop_bit 8 w),
     p + 2 := ucast (drop_bit 16 w), p + 3 := ucast (drop_bit 24 w))"

definition store16 :: "(u32 \<Rightarrow> u8) \<Rightarrow> u32 \<Rightarrow> u32 \<Rightarrow> u32 \<Rightarrow> u8" where
  "store16 h p w = h(p := ucast w, p + 1 := ucast (drop_bit 8 w))"

definition store8 :: "(u32 \<Rightarrow> u8) \<Rightarrow> u32 \<Rightarrow> u32 \<Rightarrow> u32 \<Rightarrow> u8" where
  "store8 h p w = h(p := ucast w)"

definition store64 :: "(u32 \<Rightarrow> u8) \<Rightarrow> u32 \<Rightarrow> u64 \<Rightarrow> u32 \<Rightarrow> u8" where
  "store64 h p w = h(p := ucast w, p + 1 := ucast (drop_bit 8 w),
     p + 2 := ucast (drop_bit 16 w), p + 3 := ucast (drop_bit 24 w),
     p + 4 := ucast (drop_bit 32 w), p + 5 := ucast (drop_bit 40 w),
     p + 6 := ucast (drop_bit 48 w), p + 7 := ucast (drop_bit 56 w))"

section \<open>The translation cache: \<open>flush\<close> and \<open>setpage\<close>\<close>

text \<open>
  \<open>flush\<close> is the loop \<open>while (tpages) { v = tpage[--tpages]; ... = 0; }\<close>.
\<close>

function flush :: "machine \<Rightarrow> machine" where
  "flush s =
     (if tpages s = 0 then s
      else
        let n = tpages s - 1;
            v = tpage s n
        in flush (s\<lparr>tpages := n,
             kernelReadPageTable := (kernelReadPageTable s)(v := 0),
             kernelWritePageTable := (kernelWritePageTable s)(v := 0),
             userReadPageTable := (userReadPageTable s)(v := 0),
             userWritePageTable := (userWritePageTable s)(v := 0)\<rparr>))"
  by pat_completeness auto
termination
  by (relation "measure tpages") auto

declare flush.simps [simp del]

text \<open>
  \<open>setpage v p writable userable\<close> returns the encoded entry, or 0 after latching
  \<open>FMEM\<close>. The entry is \<open>((v ^ (memory + p)) & -4096) + 1\<close>.
\<close>

definition setpage :: "u32 \<Rightarrow> u32 \<Rightarrow> u32 \<Rightarrow> u32 \<Rightarrow> machine \<Rightarrow> u32 \<times> machine" where
  "setpage v p writable userable s =
     (if memorySize s \<le> p then (0, s\<lparr>trap := FMEM, vadr := v\<rparr>)
      else
        let e = ((v XOR (memory s + p)) AND - 4096) + 1;
            n = drop_bit 12 v;
            s1 = (if kernelReadPageTable s n = 0
                  then (let s0 = (if TPAGES \<le> tpages s then flush s else s)
                        in s0\<lparr>tpage := (tpage s0)(tpages s0 := n), tpages := tpages s0 + 1\<rparr>)
                  else s)
        in (e, s1\<lparr>kernelReadPageTable := (kernelReadPageTable s1)(n := e),
                  kernelWritePageTable := (kernelWritePageTable s1)(n := if writable \<noteq> 0 then e else 0),
                  userReadPageTable := (userReadPageTable s1)(n := if userable \<noteq> 0 then e else 0),
                  userWritePageTable :=
                    (userWritePageTable s1)(n := if userable \<noteq> 0 \<and> writable \<noteq> 0 then e else 0)\<rparr>))"

section \<open>The page-table walkers \<open>rlook\<close> and \<open>wlook\<close>\<close>

text \<open>
  A C truth value passed as a \<open>uint\<close> argument is 1 or 0.
\<close>

definition c_bool :: "bool \<Rightarrow> u32" where
  "c_bool t = (if t then 1 else 0)"

definition rlook :: "u32 \<Rightarrow> machine \<Rightarrow> u32 \<times> machine" where
  "rlook v s =
     (if virtualMemoryEnabled s = 0 then setpage v v 1 1 s
      else
        let ppde = pageDirectory s + push_bit 2 (drop_bit 22 v);
            pde = load32 (host s) ppde
        in if pde AND PTE_P \<noteq> 0 then
             let s1 = (if pde AND PTE_A = 0
                       then s\<lparr>host := store32 (host s) ppde (pde OR PTE_A)\<rparr> else s)
             in if memorySize s1 \<le> pde then (0, s1\<lparr>trap := FMEM, vadr := v\<rparr>)
                else
                  let ppte = memory s1 + (pde AND - 4096) + (drop_bit 10 v AND 0xffc);
                      pte = load32 (host s1) ppte;
                      q = pte AND pde;
                      userable = q AND PTE_U
                  in if pte AND PTE_P \<noteq> 0 \<and> (userable \<noteq> 0 \<or> user s1 = 0) then
                       let s2 = (if pte AND PTE_A = 0
                                 then s1\<lparr>host := store32 (host s1) ppte (pte OR PTE_A)\<rparr> else s1)
                       in setpage v pte (c_bool (pte AND PTE_D \<noteq> 0 \<and> q AND PTE_W \<noteq> 0)) userable s2
                     else (0, s1\<lparr>trap := FRPAGE, vadr := v\<rparr>)
           else (0, s\<lparr>trap := FRPAGE, vadr := v\<rparr>))"

definition wlook :: "u32 \<Rightarrow> machine \<Rightarrow> u32 \<times> machine" where
  "wlook v s =
     (if virtualMemoryEnabled s = 0 then setpage v v 1 1 s
      else
        let ppde = pageDirectory s + push_bit 2 (drop_bit 22 v);
            pde = load32 (host s) ppde
        in if pde AND PTE_P \<noteq> 0 then
             let s1 = (if pde AND PTE_A = 0
                       then s\<lparr>host := store32 (host s) ppde (pde OR PTE_A)\<rparr> else s)
             in if memorySize s1 \<le> pde then (0, s1\<lparr>trap := FMEM, vadr := v\<rparr>)
                else
                  let ppte = memory s1 + (pde AND - 4096) + (drop_bit 10 v AND 0xffc);
                      pte = load32 (host s1) ppte;
                      q = pte AND pde;
                      userable = q AND PTE_U
                  in if pte AND PTE_P \<noteq> 0 \<and> (userable \<noteq> 0 \<or> user s1 = 0) \<and> q AND PTE_W \<noteq> 0 then
                       let s2 = (if pte AND (PTE_D OR PTE_A) \<noteq> (PTE_D OR PTE_A)
                                 then s1\<lparr>host := store32 (host s1) ppte (pte OR (PTE_D OR PTE_A))\<rparr>
                                 else s1)
                       in setpage v pte (q AND PTE_W) userable s2
                     else (0, s1\<lparr>trap := FWPAGE, vadr := v\<rparr>)
           else (0, s\<lparr>trap := FWPAGE, vadr := v\<rparr>))"


section \<open>The interpreter \<open>cpu\<close>\<close>

text \<open>
  \<open>cpu\<close> is one loop around a \<open>switch\<close> on the low byte of the instruction word
  \<open>immediate\<close>. Each case ends by \<open>continue\<close>, by a jump to one of the labels
  \<open>fixsp\<close>, \<open>fixpc\<close>, \<open>next\<close>, \<open>exception\<close> (also reached by \<open>break\<close>),
  \<open>interrupt\<close>, \<open>fatal\<close>, or by \<open>return\<close>. The model of a case returns that
  continuation with the new state. A case whose C expression has no defined value (an integer
  division by zero that the case does not guard) ends in \<open>HostUndefined\<close>.
  The state given to a case is the one after the fetch \<open>immediate = *xpc++\<close>.
\<close>

datatype control =
  Continue | FixSp | FixPc | Next | Exception | Interrupt | Fatal | Return | HostUndefined

definition cur_read :: "machine \<Rightarrow> u32 \<Rightarrow> u32" where
  "cur_read s = (case currentReadPageTable s of
     KernelTables \<Rightarrow> kernelReadPageTable s | UserTables \<Rightarrow> userReadPageTable s)"

definition cur_write :: "machine \<Rightarrow> u32 \<Rightarrow> u32" where
  "cur_write s = (case currentWritePageTable s of
     KernelTables \<Rightarrow> kernelWritePageTable s | UserTables \<Rightarrow> userWritePageTable s)"

text \<open>
  The guard \<open>!(p = currentReadPageTable[v >> 12]) && !(p = rlook(v))\<close> of every
  translated access: the entry found, or 0 when the walker faulted.
\<close>

definition tr_read :: "u32 \<Rightarrow> machine \<Rightarrow> u32 \<times> machine" where
  "tr_read v s = (let p = cur_read s (drop_bit 12 v) in if p \<noteq> 0 then (p, s) else rlook v s)"

definition tr_write :: "u32 \<Rightarrow> machine \<Rightarrow> u32 \<times> machine" where
  "tr_write v s = (let p = cur_write s (drop_bit 12 v) in if p \<noteq> 0 then (p, s) else wlook v s)"

text \<open>\<open>immediate >> 8\<close> on the signed instruction word.\<close>

definition imm8 :: "u32 \<Rightarrow> u32" where
  "imm8 immediate = signed_drop_bit 8 immediate"

subsection \<open>C integer division\<close>

text \<open>
  \<open>(int)a / (int)b\<close> and \<open>(int)a % (int)b\<close> truncate towards zero and have no
  defined value when the divisor is 0 or the quotient overflows; \<open>a / b\<close> and
  \<open>a % b\<close> on \<open>uint\<close> have none when the divisor is 0.
\<close>

definition c_sdiv :: "u32 \<Rightarrow> u32 \<Rightarrow> u32 option" where
  "c_sdiv x y = (if y = 0 \<or> (x = 0x80000000 \<and> y = - 1) then None
                 else Some (word_of_int (sint x sdiv sint y)))"

definition c_smod :: "u32 \<Rightarrow> u32 \<Rightarrow> u32 option" where
  "c_smod x y = (if y = 0 \<or> (x = 0x80000000 \<and> y = - 1) then None
                 else Some (word_of_int (sint x smod sint y)))"

definition c_udiv :: "u32 \<Rightarrow> u32 \<Rightarrow> u32 option" where
  "c_udiv x y = (if y = 0 then None else Some (x div y))"

definition c_umod :: "u32 \<Rightarrow> u32 \<Rightarrow> u32 option" where
  "c_umod x y = (if y = 0 then None else Some (x mod y))"

text \<open>The end of an arithmetic case: \<open>a = a op t\<close>, then the continuation \<open>k\<close>.\<close>

definition set_a :: "u32 option \<Rightarrow> control \<Rightarrow> machine \<Rightarrow> control \<times> machine" where
  "set_a r k s = (case r of None \<Rightarrow> (HostUndefined, s) | Some x \<Rightarrow> (k, s\<lparr>reg_a := x\<rparr>))"

text \<open>
  The operand of a local (\<open>L\<close>) arithmetic case: read through the stack window when
  \<open>immediate < fsp\<close> (an unsigned comparison), else translated; with the continuation
  the case takes after a translated read (\<open>continue\<close> or \<open>fixsp\<close>).
\<close>

definition local32 :: "u32 \<Rightarrow> machine \<Rightarrow> u32 option \<times> control \<times> machine" where
  "local32 immediate s =
     (if immediate < fsp s then (Some (load32 (host s) (xsp s + imm8 immediate)), Continue, s)
      else
        let v = xsp s - tsp s + imm8 immediate
        in case tr_read v s of (p, s1) \<Rightarrow>
             if p = 0 then (None, Exception, s1)
             else (Some (load32 (host s1) ((v XOR p) AND - 4)),
                   if fsp s1 \<noteq> 0 \<or> (v XOR (xsp s1 - tsp s1)) AND - 4096 \<noteq> 0 then Continue else FixSp,
                   s1))"

subsection \<open>Stores\<close>

datatype width = W32 | W16 | W8

text \<open>
  The host pointer of a translated access: \<open>(v ^ p) & -4\<close>, \<open>(v ^ p) & -2\<close>, and
  \<open>v ^ p & -2\<close> for a byte.
\<close>

definition host_ptr :: "width \<Rightarrow> u32 \<Rightarrow> u32 \<Rightarrow> u32" where
  "host_ptr w v p = (case w of W32 \<Rightarrow> (v XOR p) AND - 4 | W16 \<Rightarrow> (v XOR p) AND - 2
     | W8 \<Rightarrow> v XOR (p AND - 2))"

definition store_w :: "width \<Rightarrow> (u32 \<Rightarrow> u8) \<Rightarrow> u32 \<Rightarrow> u32 \<Rightarrow> u32 \<Rightarrow> u8" where
  "store_w w = (case w of W32 \<Rightarrow> store32 | W16 \<Rightarrow> store16 | W8 \<Rightarrow> store8)"

text \<open>
  A translated store of register \<open>a\<close> at guest address \<open>v\<close>:
  \<open>if (!(p = currentWritePageTable[v >> 12]) && !(p = wlook(v))) break; *ptr = a;\<close>
\<close>

definition store_xlat :: "width \<Rightarrow> u32 \<Rightarrow> machine \<Rightarrow> control \<times> machine" where
  "store_xlat w v s =
     (case tr_write v s of (p, s1) \<Rightarrow>
        if p = 0 then (Exception, s1)
        else (Continue, s1\<lparr>host := store_w w (host s1) (host_ptr w v p) (reg_a s1)\<rparr>))"

definition store_local :: "width \<Rightarrow> u32 \<Rightarrow> machine \<Rightarrow> control \<times> machine" where
  "store_local w immediate s =
     (if immediate < fsp s
      then (Continue, s\<lparr>host := store_w w (host s) (xsp s + imm8 immediate) (reg_a s)\<rparr>)
      else
        let v = xsp s - tsp s + imm8 immediate
        in case store_xlat w v s of (k, s1) \<Rightarrow>
             if k = Exception then (Exception, s1)
             else if fsp s1 \<noteq> 0 \<or> (v XOR (xsp s1 - tsp s1)) AND - 4096 \<noteq> 0 then (Continue, s1)
             else (FixSp, s1))"

text \<open>
  The stores of register \<open>f\<close>: \<open>*(double *) ((v ^ p) & -8) = f\<close> writes the eight bytes of
  the double, \<open>*(float *) ((v ^ p) & -4) = f\<close> the four bytes of its conversion to
  \<open>float\<close>. The guards and the continuations are those of the integer stores.
\<close>

datatype fwidth = F64 | F32

definition fhost_ptr :: "fwidth \<Rightarrow> u32 \<Rightarrow> u32 \<Rightarrow> u32" where
  "fhost_ptr w v p = (case w of F64 \<Rightarrow> (v XOR p) AND - 8 | F32 \<Rightarrow> (v XOR p) AND - 4)"

definition store_f :: "fwidth \<Rightarrow> machine \<Rightarrow> u32 \<Rightarrow> u32 \<Rightarrow> u8" where
  "store_f w s ptr = (case w of F64 \<Rightarrow> store64 (host s) ptr (as_double (reg_f s))
     | F32 \<Rightarrow> store32 (host s) ptr (as_float (reg_f s)))"

definition fstore_xlat :: "fwidth \<Rightarrow> u32 \<Rightarrow> machine \<Rightarrow> control \<times> machine" where
  "fstore_xlat w v s =
     (case tr_write v s of (p, s1) \<Rightarrow>
        if p = 0 then (Exception, s1)
        else (Continue, s1\<lparr>host := store_f w s1 (fhost_ptr w v p)\<rparr>))"

definition fstore_local :: "fwidth \<Rightarrow> u32 \<Rightarrow> machine \<Rightarrow> control \<times> machine" where
  "fstore_local w immediate s =
     (if immediate < fsp s
      then (Continue, s\<lparr>host := store_f w s (xsp s + imm8 immediate)\<rparr>)
      else
        let v = xsp s - tsp s + imm8 immediate
        in case fstore_xlat w v s of (k, s1) \<Rightarrow>
             if k = Exception then (Exception, s1)
             else if fsp s1 \<noteq> 0 \<or> (v XOR (xsp s1 - tsp s1)) AND - 4096 \<noteq> 0 then (Continue, s1)
             else (FixSp, s1))"

subsection \<open>Block memory\<close>

text \<open>
  The chunk length: \<open>if ((u = 4096 - (a & 4095)) > c) u = c;\<close> and, with a second
  pointer, \<open>if ((v = 4096 - (a & 4095)) > c) v = c; if ((u = 4096 - (b & 4095)) > v) u = v;\<close>
\<close>

definition chunk1 :: "u32 \<Rightarrow> u32 \<Rightarrow> u32" where
  "chunk1 x n = (let u = 4096 - (x AND 4095) in if u > n then n else u)"

definition chunk2 :: "u32 \<Rightarrow> u32 \<Rightarrow> u32 \<Rightarrow> u32" where
  "chunk2 x y n = (let v = chunk1 x n; u = 4096 - (y AND 4095) in if u > v then v else u)"

text \<open>
  The C library on host memory. \<open>memcpy\<close> reads its source before it writes (C leaves an
  overlapping copy undefined). \<open>memchr\<close> returns the pointer found, or 0. \<open>memcmp\<close> is the
  parameter \<open>libc_memcmp\<close> of the machine: C says of its result only that it is zero when
  the two ranges hold the same bytes, and otherwise negative or positive as the first byte
  that differs is smaller or larger in the first range, the bytes compared as
  \<open>unsigned char\<close>. That sign is \<open>memcmp_sign\<close>, and \<open>memcmp_contract\<close> says that a
  function keeps to it. Two functions that do: \<open>memcmp_diff\<close>, which returns the
  difference of the two bytes, and \<open>memcmp_unit\<close>, which returns -1, 0 or 1.
\<close>

definition memcpy :: "(u32 \<Rightarrow> u8) \<Rightarrow> u32 \<Rightarrow> u32 \<Rightarrow> u32 \<Rightarrow> u32 \<Rightarrow> u8" where
  "memcpy h dst src n = (\<lambda>x. if x - dst < n then h (src + (x - dst)) else h x)"

definition memset :: "(u32 \<Rightarrow> u8) \<Rightarrow> u32 \<Rightarrow> u32 \<Rightarrow> u32 \<Rightarrow> u32 \<Rightarrow> u8" where
  "memset h dst ch n = (\<lambda>x. if x - dst < n then ucast ch else h x)"



fun memcmp_bytes :: "(u32 \<Rightarrow> u8) \<Rightarrow> u32 \<Rightarrow> u32 \<Rightarrow> nat \<Rightarrow> u32" where
  "memcmp_bytes h p q 0 = 0"
| "memcmp_bytes h p q (Suc n) =
     (if h p \<noteq> h q then ucast (h p) - ucast (h q) else memcmp_bytes h (p + 1) (q + 1) n)"

definition memcmp_diff :: "(u32 \<Rightarrow> u8) \<Rightarrow> u32 \<Rightarrow> u32 \<Rightarrow> u32 \<Rightarrow> u32" where
  "memcmp_diff h p q n = memcmp_bytes h p q (unat n)"


fun memchr :: "(u32 \<Rightarrow> u8) \<Rightarrow> u32 \<Rightarrow> u8 \<Rightarrow> nat \<Rightarrow> u32" where
  "memchr h p ch 0 = 0"
| "memchr h p ch (Suc n) = (if h p = ch then p else memchr h (p + 1) ch n)"

lemma chunk1_bounds:
  assumes "n \<noteq> 0"
  shows "chunk1 x n \<noteq> 0" and "chunk1 x n \<le> n"
proof -
  have "x AND 4095 \<le> 4095" by (rule word_and_le1)
  then have "4096 - (x AND 4095) \<noteq> 0" by unat_arith
  then show "chunk1 x n \<noteq> 0" using assms by (simp add: chunk1_def Let_def)
  show "chunk1 x n \<le> n" by (simp add: chunk1_def Let_def not_less)
qed

lemma chunk2_bounds:
  assumes "n \<noteq> 0"
  shows "chunk2 x y n \<noteq> 0" and "chunk2 x y n \<le> n"
proof -
  have "y AND 4095 \<le> 4095" by (rule word_and_le1)
  then have "4096 - (y AND 4095) \<noteq> 0" by unat_arith
  then show "chunk2 x y n \<noteq> 0" using chunk1_bounds(1) [OF assms] by (simp add: chunk2_def Let_def)
  have "chunk2 x y n \<le> chunk1 x n" by (simp add: chunk2_def Let_def not_less)
  then show "chunk2 x y n \<le> n" using chunk1_bounds(2) [OF assms] by (rule order_trans)
qed

lemma chunk_decreases:
  fixes u n :: u32
  assumes "u \<noteq> 0" "u \<le> n"
  shows "unat (n - u) < unat n"
  using assms by unat_arith

text \<open>
  One pass of the body of a block-memory loop ends the case (\<open>Done\<close> with the
  continuation: the loop is over, or \<open>goto exception\<close>), or has processed one chunk and
  goes round again with the registers \<open>a\<close>, \<open>b\<close>, \<open>c\<close> advanced.
\<close>

datatype chunk_result = Done control machine | Again machine

definition mcpy_chunk :: "machine \<Rightarrow> chunk_result" where
  "mcpy_chunk s =
     (if reg_c s = 0 then Done Continue s
      else case tr_read (reg_b s) s of (t, s1) \<Rightarrow>
        if t = 0 then Done Exception s1
        else case tr_write (reg_a s) s1 of (p, s2) \<Rightarrow>
          if p = 0 then Done Exception s2
          else
            let u = chunk2 (reg_a s) (reg_b s) (reg_c s)
            in Again (s2\<lparr>host := memcpy (host s2) (reg_a s XOR (p AND - 2)) (reg_b s XOR (t AND - 2)) u,
                         reg_a := reg_a s + u, reg_b := reg_b s + u, reg_c := reg_c s - u\<rparr>))"

definition mcmp_chunk :: "machine \<Rightarrow> chunk_result" where
  "mcmp_chunk s =
     (if reg_c s = 0 then Done Continue (s\<lparr>reg_a := 0\<rparr>)
      else case tr_read (reg_b s) s of (t, s1) \<Rightarrow>
        if t = 0 then Done Exception s1
        else case tr_read (reg_a s) s1 of (p, s2) \<Rightarrow>
          if p = 0 then Done Exception s2
          else
            let u = chunk2 (reg_a s) (reg_b s) (reg_c s);
                d = libc_memcmp s2 (host s2) (reg_a s XOR (p AND - 2)) (reg_b s XOR (t AND - 2)) u
            in if d \<noteq> 0
               then Done Continue (s2\<lparr>reg_a := d, reg_b := reg_b s + reg_c s, reg_c := 0\<rparr>)
               else Again (s2\<lparr>reg_a := reg_a s + u, reg_b := reg_b s + u, reg_c := reg_c s - u\<rparr>))"

definition mchr_chunk :: "machine \<Rightarrow> chunk_result" where
  "mchr_chunk s =
     (if reg_c s = 0 then Done Continue (s\<lparr>reg_a := 0\<rparr>)
      else case tr_read (reg_a s) s of (p, s1) \<Rightarrow>
        if p = 0 then Done Exception s1
        else
          let u = chunk1 (reg_a s) (reg_c s);
              v = reg_a s XOR (p AND - 2);
              t = memchr (host s1) v (ucast (reg_b s)) (unat u)
          in if t \<noteq> 0
             then Done Continue (s1\<lparr>reg_a := reg_a s + (t - v), reg_c := 0\<rparr>)
             else Again (s1\<lparr>reg_a := reg_a s + u, reg_c := reg_c s - u\<rparr>))"

definition mset_chunk :: "machine \<Rightarrow> chunk_result" where
  "mset_chunk s =
     (if reg_c s = 0 then Done Continue s
      else case tr_write (reg_a s) s of (p, s1) \<Rightarrow>
        if p = 0 then Done Exception s1
        else
          let u = chunk1 (reg_a s) (reg_c s)
          in Again (s1\<lparr>host := memset (host s1) (reg_a s XOR (p AND - 2)) (reg_b s) u,
                       reg_a := reg_a s + u, reg_c := reg_c s - u\<rparr>))"

lemma mcpy_chunk_less: "mcpy_chunk s = Again s' \<Longrightarrow> unat (reg_c s') < unat (reg_c s)"
  by (auto simp: mcpy_chunk_def Let_def chunk_decreases chunk2_bounds split: if_splits prod.splits)

lemma mcmp_chunk_less: "mcmp_chunk s = Again s' \<Longrightarrow> unat (reg_c s') < unat (reg_c s)"
  by (auto simp: mcmp_chunk_def Let_def chunk_decreases chunk2_bounds split: if_splits prod.splits)

lemma mchr_chunk_less: "mchr_chunk s = Again s' \<Longrightarrow> unat (reg_c s') < unat (reg_c s)"
  by (auto simp: mchr_chunk_def Let_def chunk_decreases chunk1_bounds split: if_splits prod.splits)

lemma mset_chunk_less: "mset_chunk s = Again s' \<Longrightarrow> unat (reg_c s') < unat (reg_c s)"
  by (auto simp: mset_chunk_def Let_def chunk_decreases chunk1_bounds split: if_splits prod.splits)

text \<open>The loops: \<open>while (c) { ... }\<close> and \<open>for (;;) { if (!c) { a = 0; break; } ... }\<close>.\<close>

function mcpy :: "machine \<Rightarrow> control \<times> machine" where
  "mcpy s = (case mcpy_chunk s of Done k s' \<Rightarrow> (k, s') | Again s' \<Rightarrow> mcpy s')"
  by pat_completeness auto
termination
  by (relation "measure (\<lambda>s. unat (reg_c s))") (simp_all add: mcpy_chunk_less)

function mcmp :: "machine \<Rightarrow> control \<times> machine" where
  "mcmp s = (case mcmp_chunk s of Done k s' \<Rightarrow> (k, s') | Again s' \<Rightarrow> mcmp s')"
  by pat_completeness auto
termination
  by (relation "measure (\<lambda>s. unat (reg_c s))") (simp_all add: mcmp_chunk_less)

function mchr :: "machine \<Rightarrow> control \<times> machine" where
  "mchr s = (case mchr_chunk s of Done k s' \<Rightarrow> (k, s') | Again s' \<Rightarrow> mchr s')"
  by pat_completeness auto
termination
  by (relation "measure (\<lambda>s. unat (reg_c s))") (simp_all add: mchr_chunk_less)

function mset :: "machine \<Rightarrow> control \<times> machine" where
  "mset s = (case mset_chunk s of Done k s' \<Rightarrow> (k, s') | Again s' \<Rightarrow> mset s')"
  by pat_completeness auto
termination
  by (relation "measure (\<lambda>s. unat (reg_c s))") (simp_all add: mset_chunk_less)

declare mcpy.simps [simp del] mcmp.simps [simp del] mchr.simps [simp del] mset.simps [simp del]


subsection \<open>Trap delivery: the labels \<open>exception\<close> and \<open>interrupt\<close>\<close>

definition interrupt_entry :: "machine \<Rightarrow> control \<times> machine" where
  "interrupt_entry s =
     (let s1 = s\<lparr>xsp := xsp s - tsp s, tsp := 0, fsp := 0\<rparr>;
          s2 = (if user s1 \<noteq> 0
                then s1\<lparr>usp := xsp s1, xsp := ssp s1, user := 0,
                        currentReadPageTable := KernelTables, currentWritePageTable := KernelTables,
                        trap := trap s1 OR USER\<rparr>
                else s1);
          s3 = s2\<lparr>xsp := xsp s2 - 8\<rparr>
      in case tr_write (xsp s3) s3 of (p, s4) \<Rightarrow>
           if p = 0 then (Fatal, s4)
           else
             let s5 = s4\<lparr>host := store32 (host s4) ((xsp s4 XOR p) AND - 8) (xpc s4 - tpc s4)\<rparr>;
                 s6 = s5\<lparr>xsp := xsp s5 - 8\<rparr>
             in case tr_write (xsp s6) s6 of (q, s7) \<Rightarrow>
                  if q = 0 then (Fatal, s7)
                  else
                    let s8 = s7\<lparr>host := store32 (host s7) ((xsp s7 XOR q) AND - 8) (trap s7)\<rparr>
                    in (FixPc, s8\<lparr>xcycle := xcycle s8 + (ivec s8 + tpc s8 - xpc s8),
                                  xpc := ivec s8 + tpc s8\<rparr>))"

definition exception_entry :: "machine \<Rightarrow> control \<times> machine" where
  "exception_entry s = (if iena s = 0 then (Fatal, s) else interrupt_entry s)"

text \<open>What follows the \<open>switch\<close>: the two delivery labels, or the continuation itself.\<close>

definition deliver :: "control \<times> machine \<Rightarrow> control \<times> machine" where
  "deliver r = (case r of (Exception, s) \<Rightarrow> exception_entry s
     | (Interrupt, s) \<Rightarrow> interrupt_entry s | _ \<Rightarrow> r)"

subsection \<open>Interrupt control: \<open>CLI\<close>, \<open>STI\<close>, \<open>RTI\<close>\<close>

definition cli :: "machine \<Rightarrow> control \<times> machine" where
  "cli s = (if user s \<noteq> 0 then (Exception, s\<lparr>trap := FPRIV\<rparr>)
            else (Continue, s\<lparr>reg_a := iena s, iena := 0\<rparr>))"

definition sti :: "machine \<Rightarrow> control \<times> machine" where
  "sti s = (if user s \<noteq> 0 then (Exception, s\<lparr>trap := FPRIV\<rparr>)
            else if ipend s \<noteq> 0
            then (let t = ipend s AND - ipend s
                  in (Interrupt, s\<lparr>trap := t, ipend := ipend s XOR t, iena := 0\<rparr>))
            else (Continue, s\<lparr>iena := 1\<rparr>))"

definition rti :: "machine \<Rightarrow> control \<times> machine" where
  "rti s =
     (if user s \<noteq> 0 then (Exception, s\<lparr>trap := FPRIV\<rparr>)
      else
        let s1 = s\<lparr>xsp := xsp s - tsp s, tsp := 0, fsp := 0\<rparr>
        in case tr_read (xsp s1) s1 of (p, s2) \<Rightarrow>
             if p = 0 then (Fatal, s2)
             else
               let t = load32 (host s2) ((xsp s2 XOR p) AND - 8);
                   s3 = s2\<lparr>xsp := xsp s2 + 8\<rparr>
               in case tr_read (xsp s3) s3 of (q, s4) \<Rightarrow>
                    if q = 0 then (Fatal, s4)
                    else
                      let pc = load32 (host s4) ((xsp s4 XOR q) AND - 8) + tpc s4;
                          s5 = s4\<lparr>xcycle := xcycle s4 + (pc - xpc s4), xsp := xsp s4 + 8, xpc := pc\<rparr>;
                          s6 = (if t AND USER \<noteq> 0
                                then s5\<lparr>ssp := xsp s5, xsp := usp s5, user := 1,
                                        currentReadPageTable := UserTables,
                                        currentWritePageTable := UserTables\<rparr>
                                else s5)
                      in if iena s6 = 0
                         then (if ipend s6 \<noteq> 0
                               then (let tr = ipend s6 AND - ipend s6
                                     in (Interrupt, s6\<lparr>trap := tr, ipend := ipend s6 XOR tr\<rparr>))
                               else (FixPc, s6\<lparr>iena := 1\<rparr>))
                         else (FixPc, s6))"

subsection \<open>The cases of the \<open>switch\<close>\<close>

text \<open>
  The opcode numbers come from a header that is not part of the source file; the cases are
  named as the source names them. These are the cases that the properties below are about:
  halt, block memory, the stores, integer division and modulus, and interrupt control.
\<close>

datatype opcode =
    HALT | MCPY | MCMP | MCHR | MSET
  | SL | SLH | SLB | SLD | SLF | SG | SGH | SGB | SGD | SGF | SX | SXH | SXB | SXD | SXF
  | DIV | DIVI | DIVL | DVU | DVUI | DVUL
  | MOD | MODI | MODL | MDU | MDUI | MDUL
  | CLI | STI | RTI

fun exec :: "opcode \<Rightarrow> u32 \<Rightarrow> machine \<Rightarrow> control \<times> machine" where
  "exec HALT immediate s = (Return, s)"
| "exec MCPY immediate s = mcpy s"
| "exec MCMP immediate s = mcmp s"
| "exec MCHR immediate s = mchr s"
| "exec MSET immediate s = mset s"
| "exec SL immediate s = store_local W32 immediate s"
| "exec SLH immediate s = store_local W16 immediate s"
| "exec SLB immediate s = store_local W8 immediate s"
| "exec SLD immediate s = fstore_local F64 immediate s"
| "exec SLF immediate s = fstore_local F32 immediate s"
| "exec SG immediate s = store_xlat W32 (xpc s - tpc s + imm8 immediate) s"
| "exec SGH immediate s = store_xlat W16 (xpc s - tpc s + imm8 immediate) s"
| "exec SGB immediate s = store_xlat W8 (xpc s - tpc s + imm8 immediate) s"
| "exec SGD immediate s = fstore_xlat F64 (xpc s - tpc s + imm8 immediate) s"
| "exec SGF immediate s = fstore_xlat F32 (xpc s - tpc s + imm8 immediate) s"
| "exec SX immediate s = store_xlat W32 (reg_b s + imm8 immediate) s"
| "exec SXH immediate s = store_xlat W16 (reg_b s + imm8 immediate) s"
| "exec SXB immediate s = store_xlat W8 (reg_b s + imm8 immediate) s"
| "exec SXD immediate s = fstore_xlat F64 (reg_b s + imm8 immediate) s"
| "exec SXF immediate s = fstore_xlat F32 (reg_b s + imm8 immediate) s"
| "exec DIV immediate s =
     (if reg_b s = 0 then (Exception, s\<lparr>trap := FARITH\<rparr>)
      else set_a (c_sdiv (reg_a s) (reg_b s)) Continue s)"
| "exec DIVI immediate s =
     (if imm8 immediate = 0 then (Exception, s\<lparr>trap := FARITH\<rparr>)
      else set_a (c_sdiv (reg_a s) (imm8 immediate)) Continue s)"
| "exec DIVL immediate s =
     (case local32 immediate s of
        (None, k, s1) \<Rightarrow> (k, s1)
      | (Some t, k, s1) \<Rightarrow>
          if t = 0 then (Exception, s1\<lparr>trap := FARITH\<rparr>)
          else set_a (c_sdiv (reg_a s1) t) k s1)"
| "exec DVU immediate s =
     (if reg_b s = 0 then (Exception, s\<lparr>trap := FARITH\<rparr>)
      else set_a (c_udiv (reg_a s) (reg_b s)) Continue s)"
| "exec DVUI immediate s =
     (if imm8 immediate = 0 then (Exception, s\<lparr>trap := FARITH\<rparr>)
      else set_a (c_udiv (reg_a s) (imm8 immediate)) Continue s)"
| "exec DVUL immediate s =
     (case local32 immediate s of
        (None, k, s1) \<Rightarrow> (k, s1)
      | (Some t, k, s1) \<Rightarrow>
          if t = 0 then (Exception, s1\<lparr>trap := FARITH\<rparr>)
          else set_a (c_udiv (reg_a s1) t) k s1)"
| "exec MOD immediate s = set_a (c_smod (reg_a s) (reg_b s)) Continue s"
| "exec MODI immediate s = set_a (c_smod (reg_a s) (imm8 immediate)) Continue s"
| "exec MODL immediate s =
     (case local32 immediate s of
        (None, k, s1) \<Rightarrow> (k, s1)
      | (Some t, k, s1) \<Rightarrow> set_a (c_smod (reg_a s1) t) k s1)"
| "exec MDU immediate s = set_a (c_umod (reg_a s) (reg_b s)) Continue s"
| "exec MDUI immediate s = set_a (c_umod (reg_a s) (imm8 immediate)) Continue s"
| "exec MDUL immediate s =
     (case local32 immediate s of
        (None, k, s1) \<Rightarrow> (k, s1)
      | (Some t, k, s1) \<Rightarrow> set_a (c_umod (reg_a s1) t) k s1)"
| "exec CLI immediate s = cli s"
| "exec STI immediate s = sti s"
| "exec RTI immediate s = rti s"

section \<open>\<open>main\<close>: start-up and the exit status\<close>

text \<open>
  \<open>main\<close> leaves with \<open>return -1\<close> or \<open>exit(-1)\<close> (in \<open>usage\<close> and \<open>new\<close>)
  when start-up fails, and with \<open>return 0\<close> after \<open>cpu\<close> has come back; \<open>cpu\<close> is
  \<open>void\<close> and comes back by \<open>return\<close> or by running off its end after the label
  \<open>fatal\<close>. What the host calls answered is the record \<open>bootenv\<close>.
\<close>

record bootenv =
  argc :: nat
  unknown_option :: bool
  sbrk_failed :: bool
  fs_given :: bool
  fs_opened :: bool
  fs_statted :: bool
  fs_read_full :: bool
  file_opened :: bool
  file_statted :: bool
  hdr_magic :: u32
  file_read_full :: bool

definition startup_ok :: "bootenv \<Rightarrow> bool" where
  "startup_ok e = (2 \<le> argc e \<and> \<not> unknown_option e \<and> \<not> sbrk_failed e
     \<and> (if fs_given e then fs_opened e \<and> fs_statted e \<and> fs_read_full e else True)
     \<and> file_opened e \<and> file_statted e \<and> hdr_magic e = 0xC0DEF00D \<and> file_read_full e)"

text \<open>
  The exit status, given how \<open>cpu\<close> stopped; \<open>None\<close> when \<open>cpu\<close> has not come back
  to \<open>main\<close>.
\<close>

definition main_status :: "bootenv \<Rightarrow> control \<Rightarrow> int option" where
  "main_status e cpu_end =
     (if startup_ok e
      then (if cpu_end = Return then Some 0 else if cpu_end = Fatal then Some 0 else None)
      else Some (- 1))"

text \<open>\<open>memorySize\<close> as \<open>main\<close> sets it: \<open>MEM_SZ\<close>, or the \<open>-m\<close> argument in MiB.\<close>

definition main_memorySize :: "u32 option \<Rightarrow> u32" where
  "main_memorySize m = (case m of None \<Rightarrow> 128 * 1024 * 1024 | Some n \<Rightarrow> n * (1024 * 1024))"

text \<open>
  The state in which \<open>cpu pc sp\<close> enters its loop: the globals are zero, the tables are
  fresh, and \<open>a = b = c = tsp = fsp = 0\<close>, \<open>xpc = 0\<close>, \<open>tpc = -pc\<close>, \<open>xsp = sp\<close>,
  \<open>xcycle = delta * 4\<close>. The locals \<open>ssp\<close>, \<open>usp\<close> and \<open>f\<close> start without a value in
  C; they are 0 here (for \<open>f\<close>, the images of 0.0). \<open>cmp\<close> is the host's \<open>memcmp\<close>.
\<close>

definition power_on ::
  "((u32 \<Rightarrow> u8) \<Rightarrow> u32 \<Rightarrow> u32 \<Rightarrow> u32 \<Rightarrow> u32) \<Rightarrow> u32 \<Rightarrow> u32 \<Rightarrow> (u32 \<Rightarrow> u8) \<Rightarrow> u32 \<Rightarrow> u32 \<Rightarrow> machine"
  where
  "power_on cmp base msize img pc sp =
     \<lparr>memory = base, memorySize = msize, user = 0, iena = 0, ipend = 0, trap = 0, ivec = 0,
      vadr = 0, virtualMemoryEnabled = 0, pageDirectory = 0, tpage = (\<lambda>_. 0), tpages = 0,
      kernelReadPageTable = (\<lambda>_. 0), kernelWritePageTable = (\<lambda>_. 0),
      userReadPageTable = (\<lambda>_. 0), userWritePageTable = (\<lambda>_. 0),
      currentReadPageTable = KernelTables, currentWritePageTable = KernelTables,
      host = img, reg_a = 0, reg_b = 0, reg_c = 0, ssp = 0, usp = 0, xsp = sp, tsp = 0,
      fsp = 0, xpc = 0, tpc = - pc, xcycle = 4096 * 4,
      reg_f = \<lparr>as_double = 0, as_float = 0\<rparr>, libc_memcmp = cmp\<rparr>"


section \<open>Properties of the translation cache\<close>

text \<open>
  A lookup is the table read \<open>table[v >> 12]\<close> that the interpreter writes inline, in one
  of the four tables. The populated list is \<open>tpage[0..tpages)\<close>.
\<close>

datatype quadrant = KernelRead | KernelWrite | UserRead | UserWrite

definition lookup :: "machine \<Rightarrow> u32 \<Rightarrow> quadrant \<Rightarrow> u32" where
  "lookup s v q =
     (case q of KernelRead \<Rightarrow> kernelReadPageTable s (drop_bit 12 v)
      | KernelWrite \<Rightarrow> kernelWritePageTable s (drop_bit 12 v)
      | UserRead \<Rightarrow> userReadPageTable s (drop_bit 12 v)
      | UserWrite \<Rightarrow> userWritePageTable s (drop_bit 12 v))"

definition populated :: "machine \<Rightarrow> u32 list" where
  "populated s = map (tpage s) [0..<tpages s]"

definition any_quadrant :: "machine \<Rightarrow> u32 \<Rightarrow> bool" where
  "any_quadrant s n \<longleftrightarrow> kernelReadPageTable s n \<noteq> 0 \<or> kernelWritePageTable s n \<noteq> 0
     \<or> userReadPageTable s n \<noteq> 0 \<or> userWritePageTable s n \<noteq> 0"

definition tc_initial :: "machine \<Rightarrow> bool" where
  "tc_initial s \<longleftrightarrow> tpages s = 0 \<and> kernelReadPageTable s = (\<lambda>_. 0)
     \<and> kernelWritePageTable s = (\<lambda>_. 0) \<and> userReadPageTable s = (\<lambda>_. 0)
     \<and> userWritePageTable s = (\<lambda>_. 0)"

inductive tc_reachable :: "machine \<Rightarrow> bool" where
  init: "tc_initial s \<Longrightarrow> tc_reachable s"
| install: "tc_reachable s \<Longrightarrow> tc_reachable (snd (setpage v p w u s))"
| flushed: "tc_reachable s \<Longrightarrow> tc_reachable (flush s)"

definition tc_inv :: "machine \<Rightarrow> bool" where
  "tc_inv s \<longleftrightarrow> tpages s \<le> TPAGES \<and> distinct (populated s)
     \<and> (\<forall>n. kernelReadPageTable s n \<noteq> 0 \<longleftrightarrow> n \<in> set (populated s))
     \<and> (\<forall>n. kernelReadPageTable s n = 0 \<longrightarrow>
            kernelWritePageTable s n = 0 \<and> userReadPageTable s n = 0 \<and> userWritePageTable s n = 0)"

lemma entry_nonzero: "((x::u32) AND - 4096) + 1 \<noteq> 0"
proof
  assume "(x AND - 4096) + 1 = 0"
  then have "x AND - 4096 = - 1" by (simp add: eq_neg_iff_add_eq_0)
  then have "bit (x AND - 4096) 0 = bit (- 1 :: u32) 0" by simp
  then show False by (simp add: bit_simps)
qed

lemma populated_Suc:
  "tpages s = Suc n \<Longrightarrow> populated s = map (tpage s) [0..<n] @ [tpage s n]"
  by (simp add: populated_def)

lemma flush_effect:
  "tpages (flush s) = 0 \<and> tpage (flush s) = tpage s
   \<and> kernelReadPageTable (flush s) = (\<lambda>n. if n \<in> set (populated s) then 0 else kernelReadPageTable s n)
   \<and> kernelWritePageTable (flush s) = (\<lambda>n. if n \<in> set (populated s) then 0 else kernelWritePageTable s n)
   \<and> userReadPageTable (flush s) = (\<lambda>n. if n \<in> set (populated s) then 0 else userReadPageTable s n)
   \<and> userWritePageTable (flush s) = (\<lambda>n. if n \<in> set (populated s) then 0 else userWritePageTable s n)"
proof (induction s rule: flush.induct)
  case (1 s)
  show ?case
  proof (cases "tpages s = 0")
    case True
    then show ?thesis by (simp add: flush.simps [of s] populated_def)
  next
    case False
    let ?n = "tpages s - 1"
    have n: "tpages s = Suc ?n" using False by simp
    let ?s' = "s\<lparr>tpages := ?n,
             kernelReadPageTable := (kernelReadPageTable s)(tpage s ?n := 0),
             kernelWritePageTable := (kernelWritePageTable s)(tpage s ?n := 0),
             userReadPageTable := (userReadPageTable s)(tpage s ?n := 0),
             userWritePageTable := (userWritePageTable s)(tpage s ?n := 0)\<rparr>"
    have f: "flush s = flush ?s'"
      using False by (subst flush.simps) (simp add: Let_def)
    note ih = "1.IH" [OF False refl refl]
    have p: "populated ?s' = map (tpage s) [0..<?n]" by (simp add: populated_def)
    have ps: "set (populated s) = insert (tpage s ?n) (set (map (tpage s) [0..<?n]))"
      using populated_Suc [OF n] by simp
    show ?thesis
      unfolding f using ih unfolding p ps by (auto simp: fun_eq_iff)
  qed
qed


lemma populated_append:
  "populated (s\<lparr>tpage := (tpage s)(tpages s := n), tpages := tpages s + 1\<rparr>) = populated s @ [n]"
  by (simp add: populated_def)

lemma flush_populated: "populated (flush s) = []"
  using flush_effect [of s] by (simp add: populated_def)

lemma flush_inv:
  assumes "tc_inv s"
  shows "tc_inv (flush s)"
    and "kernelReadPageTable (flush s) n = 0" and "kernelWritePageTable (flush s) n = 0"
    and "userReadPageTable (flush s) n = 0" and "userWritePageTable (flush s) n = 0"
proof -
  show kr: "kernelReadPageTable (flush s) n = 0" for n
    using assms flush_effect [of s] by (auto simp: tc_inv_def)
  show kw: "kernelWritePageTable (flush s) n = 0" for n
    using assms flush_effect [of s] by (auto simp: tc_inv_def)
  show ur: "userReadPageTable (flush s) n = 0" for n
    using assms flush_effect [of s] by (auto simp: tc_inv_def)
  show uw: "userWritePageTable (flush s) n = 0" for n
    using assms flush_effect [of s] by (auto simp: tc_inv_def)
  show "tc_inv (flush s)"
    unfolding tc_inv_def using kr kw ur uw flush_effect [of s] by (simp add: flush_populated)
qed

lemma tc_inv_fields:
  assumes "tpages s' = tpages s" "tpage s' = tpage s"
    "kernelReadPageTable s' = kernelReadPageTable s" "kernelWritePageTable s' = kernelWritePageTable s"
    "userReadPageTable s' = userReadPageTable s" "userWritePageTable s' = userWritePageTable s"
  shows "tc_inv s' = tc_inv s"
  using assms by (simp add: tc_inv_def populated_def)

lemma setpage_fail:
  "memorySize s \<le> p \<Longrightarrow> setpage v p w u s = (0, s\<lparr>trap := 0, vadr := v\<rparr>)"
  by (simp add: setpage_def)

lemma setpage_hit:
  assumes "\<not> memorySize s \<le> p" "kernelReadPageTable s (drop_bit 12 v) \<noteq> 0"
  shows "setpage v p w u s =
    (((v XOR (memory s + p)) AND - 4096) + 1,
     s\<lparr>kernelReadPageTable := (kernelReadPageTable s)(drop_bit 12 v := ((v XOR (memory s + p)) AND - 4096) + 1),
       kernelWritePageTable := (kernelWritePageTable s)
         (drop_bit 12 v := if w \<noteq> 0 then ((v XOR (memory s + p)) AND - 4096) + 1 else 0),
       userReadPageTable := (userReadPageTable s)
         (drop_bit 12 v := if u \<noteq> 0 then ((v XOR (memory s + p)) AND - 4096) + 1 else 0),
       userWritePageTable := (userWritePageTable s)
         (drop_bit 12 v := if u \<noteq> 0 \<and> w \<noteq> 0 then ((v XOR (memory s + p)) AND - 4096) + 1 else 0)\<rparr>)"
  using assms by (simp add: setpage_def Let_def)

lemma setpage_miss:
  assumes "\<not> memorySize s \<le> p" "kernelReadPageTable s (drop_bit 12 v) = 0"
    and "s0 = (if TPAGES \<le> tpages s then flush s else s)"
  shows "setpage v p w u s =
    (((v XOR (memory s + p)) AND - 4096) + 1,
     s0\<lparr>tpage := (tpage s0)(tpages s0 := drop_bit 12 v), tpages := tpages s0 + 1,
       kernelReadPageTable := (kernelReadPageTable s0)(drop_bit 12 v := ((v XOR (memory s + p)) AND - 4096) + 1),
       kernelWritePageTable := (kernelWritePageTable s0)
         (drop_bit 12 v := if w \<noteq> 0 then ((v XOR (memory s + p)) AND - 4096) + 1 else 0),
       userReadPageTable := (userReadPageTable s0)
         (drop_bit 12 v := if u \<noteq> 0 then ((v XOR (memory s + p)) AND - 4096) + 1 else 0),
       userWritePageTable := (userWritePageTable s0)
         (drop_bit 12 v := if u \<noteq> 0 \<and> w \<noteq> 0 then ((v XOR (memory s + p)) AND - 4096) + 1 else 0)\<rparr>)"
  using assms(1,2) unfolding assms(3) by (simp add: setpage_def Let_def)

lemma tc_inv_update:
  assumes inv: "tc_inv s" and n: "n \<in> set (populated s)" and e: "e \<noteq> 0"
  shows "tc_inv (s\<lparr>kernelReadPageTable := (kernelReadPageTable s)(n := e),
       kernelWritePageTable := (kernelWritePageTable s)(n := x),
       userReadPageTable := (userReadPageTable s)(n := y),
       userWritePageTable := (userWritePageTable s)(n := z)\<rparr>)"
proof -
  let ?s' = "s\<lparr>kernelReadPageTable := (kernelReadPageTable s)(n := e),
       kernelWritePageTable := (kernelWritePageTable s)(n := x),
       userReadPageTable := (userReadPageTable s)(n := y),
       userWritePageTable := (userWritePageTable s)(n := z)\<rparr>"
  have p: "populated ?s' = populated s" by (simp add: populated_def)
  have 1: "tpages ?s' \<le> TPAGES" using inv by (simp add: tc_inv_def)
  have 2: "distinct (populated ?s')" using inv unfolding p by (simp add: tc_inv_def)
  have 3: "kernelReadPageTable ?s' m \<noteq> 0 \<longleftrightarrow> m \<in> set (populated ?s')" for m
    unfolding p using inv n e by (cases "m = n") (simp_all add: tc_inv_def)
  have 4: "kernelReadPageTable ?s' m = 0 \<longrightarrow>
            kernelWritePageTable ?s' m = 0 \<and> userReadPageTable ?s' m = 0 \<and> userWritePageTable ?s' m = 0" for m
    using inv e by (cases "m = n") (simp_all add: tc_inv_def)
  show ?thesis unfolding tc_inv_def using 1 2 3 4 by blast
qed

lemma tc_inv_append:
  assumes inv: "tc_inv s" and lt: "tpages s < TPAGES" and n: "n \<notin> set (populated s)" and e: "e \<noteq> 0"
  shows "tc_inv (s\<lparr>tpage := (tpage s)(tpages s := n), tpages := tpages s + 1,
       kernelReadPageTable := (kernelReadPageTable s)(n := e),
       kernelWritePageTable := (kernelWritePageTable s)(n := x),
       userReadPageTable := (userReadPageTable s)(n := y),
       userWritePageTable := (userWritePageTable s)(n := z)\<rparr>)"
proof -
  let ?s' = "s\<lparr>tpage := (tpage s)(tpages s := n), tpages := tpages s + 1,
       kernelReadPageTable := (kernelReadPageTable s)(n := e),
       kernelWritePageTable := (kernelWritePageTable s)(n := x),
       userReadPageTable := (userReadPageTable s)(n := y),
       userWritePageTable := (userWritePageTable s)(n := z)\<rparr>"
  have p: "populated ?s' = populated s @ [n]" by (simp add: populated_def)
  have 1: "tpages ?s' \<le> TPAGES" using lt by simp
  have 2: "distinct (populated ?s')" using inv n unfolding p by (simp add: tc_inv_def)
  have 3: "kernelReadPageTable ?s' m \<noteq> 0 \<longleftrightarrow> m \<in> set (populated ?s')" for m
    unfolding p using inv e by (cases "m = n") (simp_all add: tc_inv_def)
  have 4: "kernelReadPageTable ?s' m = 0 \<longrightarrow>
            kernelWritePageTable ?s' m = 0 \<and> userReadPageTable ?s' m = 0 \<and> userWritePageTable ?s' m = 0" for m
    using inv e by (cases "m = n") (simp_all add: tc_inv_def)
  show ?thesis unfolding tc_inv_def using 1 2 3 4 by blast
qed

lemma setpage_inv:
  assumes inv: "tc_inv s"
  shows "tc_inv (snd (setpage v p w u s))"
proof (cases "memorySize s \<le> p")
  case True
  have "tc_inv (s\<lparr>trap := 0, vadr := v\<rparr>) = tc_inv s" by (rule tc_inv_fields) simp_all
  then show ?thesis using inv True by (simp add: setpage_fail)
next
  case big: False
  show ?thesis
  proof (cases "kernelReadPageTable s (drop_bit 12 v) = 0")
    case False
    then have "drop_bit 12 v \<in> set (populated s)" using inv by (auto simp: tc_inv_def)
    then show ?thesis
      unfolding setpage_hit [OF big False] snd_conv
      by (rule tc_inv_update [OF inv _ entry_nonzero])
  next
    case True
    define s0 where "s0 = (if TPAGES \<le> tpages s then flush s else s)"
    have inv0: "tc_inv s0" using inv flush_inv(1) by (simp add: s0_def)
    have lt: "tpages s0 < TPAGES" using flush_effect [of s] by (auto simp: s0_def)
    have kr0: "kernelReadPageTable s0 (drop_bit 12 v) = 0"
      using True flush_inv(2) [OF inv] by (simp add: s0_def)
    then have notin: "drop_bit 12 v \<notin> set (populated s0)" using inv0 by (auto simp: tc_inv_def)
    show ?thesis
      unfolding setpage_miss [OF big True s0_def] snd_conv
      by (rule tc_inv_append [OF inv0 lt notin entry_nonzero])
  qed
qed

lemma tc_initial_inv: "tc_initial s \<Longrightarrow> tc_inv s"
  by (simp add: tc_initial_def tc_inv_def populated_def)

lemma tc_reachable_inv: "tc_reachable s \<Longrightarrow> tc_inv s"
  by (induction rule: tc_reachable.induct) (simp_all add: tc_initial_inv setpage_inv flush_inv(1))


subsection \<open>Page alignment\<close>

lemma neg4096: "(- 4096 :: u32) = NOT (mask 12)"
  by (simp add: mask_eq_exp_minus_1)

lemma and_neg4096: "(p::u32) AND - 4096 = push_bit 12 (drop_bit 12 p)"
  unfolding neg4096 by (rule bit_word_eqI) (auto simp: bit_simps)

lemma unat_and_neg4096: "unat ((p::u32) AND - 4096) = unat p div 4096 * 4096"
proof -
  have lt: "unat p div 4096 * 4096 < 2 ^ 32"
  proof -
    have "unat p div 4096 * 4096 \<le> unat p" by simp
    moreover have "unat p < 2 ^ 32" using unsigned_less [of p, where 'a = nat] by simp
    ultimately show ?thesis by (rule le_less_trans)
  qed
  have tb: "take_bit 32 (unat p) = unat p"
    using unsigned_less [of p, where 'a = nat] by (simp add: take_bit_nat_eq_self)
  have "unat (push_bit 12 (drop_bit 12 p)) = take_bit 32 (push_bit 12 (drop_bit 12 (unat p)))"
    by (simp add: unsigned_push_bit_eq unsigned_drop_bit_eq tb)
  also have "\<dots> = unat p div 4096 * 4096"
    using lt by (simp add: push_bit_eq_mult drop_bit_eq_div take_bit_nat_eq_self)
  finally show ?thesis by (simp add: and_neg4096)
qed

lemma aligned_and_neg4096:
  assumes "(m::u32) AND 0xfff = 0"
  shows "m AND - 4096 = m"
proof -
  have "m = m AND (- 4096 OR 0xfff)" by simp
  also have "\<dots> = (m AND - 4096) OR (m AND 0xfff)" by (rule bit.conj_disj_distrib)
  finally show ?thesis using assms by simp
qed

lemma aligned_le:
  assumes "(m::u32) AND 0xfff = 0"
  shows "m \<le> p \<longleftrightarrow> m \<le> (p AND - 4096)"
proof -
  have m: "unat m = unat m div 4096 * 4096"
    using unat_and_neg4096 [of m] aligned_and_neg4096 [OF assms] by simp
  have "unat m \<le> unat p \<longleftrightarrow> unat m \<le> unat p div 4096 * 4096"
  proof
    assume "unat m \<le> unat p"
    then have "unat m div 4096 \<le> unat p div 4096" by (rule div_le_mono)
    then have "unat m div 4096 * 4096 \<le> unat p div 4096 * 4096" by simp
    then show "unat m \<le> unat p div 4096 * 4096" using m by simp
  next
    assume "unat m \<le> unat p div 4096 * 4096"
    moreover have "unat p div 4096 * 4096 \<le> unat p" by simp
    ultimately show "unat m \<le> unat p" by (rule le_trans)
  qed
  then show ?thesis by (simp add: word_le_nat_alt unat_and_neg4096)
qed



subsection \<open>The contract of \<open>setpage\<close>, the populated list, and \<open>flush\<close>\<close>

text \<open>The encoded entry that \<open>setpage\<close> computes, and a machine at power-on.\<close>

definition tc_entry :: "u32 \<Rightarrow> u32 \<Rightarrow> u32 \<Rightarrow> u32" where
  "tc_entry base v p = ((v XOR (base + p)) AND - 4096) + 1"

definition boot0 :: machine where
  "boot0 = power_on memcmp_diff 0x10000000 0x8000000 (\<lambda>_. 0) 0 0x7C00000"

lemma setpage_ok_fst:
  "\<not> memorySize s \<le> p \<Longrightarrow> fst (setpage v p w u s) = tc_entry (memory s) v p"
  by (simp add: setpage_def Let_def tc_entry_def)

lemma setpage_ok_tables:
  assumes "\<not> memorySize s \<le> p"
  shows "kernelReadPageTable (snd (setpage v p w u s)) (drop_bit 12 v) = tc_entry (memory s) v p"
    and "kernelWritePageTable (snd (setpage v p w u s)) (drop_bit 12 v) =
           (if w \<noteq> 0 then tc_entry (memory s) v p else 0)"
    and "userReadPageTable (snd (setpage v p w u s)) (drop_bit 12 v) =
           (if u \<noteq> 0 then tc_entry (memory s) v p else 0)"
    and "userWritePageTable (snd (setpage v p w u s)) (drop_bit 12 v) =
           (if u \<noteq> 0 \<and> w \<noteq> 0 then tc_entry (memory s) v p else 0)"
  using assms by (simp_all add: setpage_def Let_def tc_entry_def)

text \<open>
  C5. \<open>setpage v p writable userable\<close>, with \<open>memorySize\<close> a multiple of the page
  size (as \<open>main\<close> always sets it): when the physical page of \<open>p\<close> is at or beyond
  \<open>memorySize\<close> it returns 0, sets \<open>trap = FMEM\<close> and \<open>vadr = v\<close> and changes
  nothing else; otherwise it returns the encoded entry, stores it in the kernel-read table at
  \<open>v >> 12\<close>, in the kernel-write table when \<open>writable\<close> (else 0), in the
  user-read table when \<open>userable\<close> (else 0), and in the user-write table when both
  (else 0).
\<close>

theorem setpage_contract:
  assumes "memorySize s AND 0xfff = 0"
  shows "if memorySize s \<le> (p AND - 4096)
         then setpage v p w u s = (0, s\<lparr>trap := FMEM, vadr := v\<rparr>)
         else fst (setpage v p w u s) = tc_entry (memory s) v p
            \<and> lookup (snd (setpage v p w u s)) v KernelRead = tc_entry (memory s) v p
            \<and> lookup (snd (setpage v p w u s)) v KernelWrite =
                 (if w \<noteq> 0 then tc_entry (memory s) v p else 0)
            \<and> lookup (snd (setpage v p w u s)) v UserRead =
                 (if u \<noteq> 0 then tc_entry (memory s) v p else 0)
            \<and> lookup (snd (setpage v p w u s)) v UserWrite =
                 (if w \<noteq> 0 \<and> u \<noteq> 0 then tc_entry (memory s) v p else 0)"
proof (cases "memorySize s \<le> p")
  case True
  then show ?thesis using aligned_le [OF assms, of p] by (simp add: setpage_fail)
next
  case False
  then have "\<not> memorySize s \<le> (p AND - 4096)" using aligned_le [OF assms, of p] by simp
  then show ?thesis
    using setpage_ok_fst [OF False] setpage_ok_tables [OF False]
    by (simp add: lookup_def conj_commute)
qed

theorem setpage_contract_witness:
  "setpage 0x5123 0x9000007 1 0 boot0 = (0, boot0\<lparr>trap := FMEM, vadr := 0x5123\<rparr>)
   \<and> fst (setpage 0x5123 0x3007 1 0 boot0) = 0x10006001
   \<and> lookup (snd (setpage 0x5123 0x3007 1 0 boot0)) 0x5123 KernelRead = 0x10006001
   \<and> lookup (snd (setpage 0x5123 0x3007 1 0 boot0)) 0x5123 KernelWrite = 0x10006001
   \<and> lookup (snd (setpage 0x5123 0x3007 1 0 boot0)) 0x5123 UserRead = 0
   \<and> lookup (snd (setpage 0x5123 0x3007 1 0 boot0)) 0x5123 UserWrite = 0"
proof -
  have al: "memorySize boot0 AND 0xfff = 0" by (simp add: boot0_def power_on_def)
  have m: "memorySize boot0 = 0x8000000" "memory boot0 = 0x10000000"
    by (simp_all add: boot0_def power_on_def)
  show ?thesis
    using setpage_contract [OF al, of "0x9000007" "0x5123" 1 0]
      setpage_contract [OF al, of "0x3007" "0x5123" 1 0]
    by (simp add: m tc_entry_def)
qed


lemma main_memorySize_aligned: "main_memorySize m AND 0xfff = 0"
proof (cases m)
  case None
  then show ?thesis by (simp add: main_memorySize_def)
next
  case (Some n)
  have "n * (1024 * 1024) = push_bit 20 n" by (simp add: push_bit_eq_mult)
  moreover have "(0xfff :: u32) = mask 12" by (simp add: mask_eq_exp_minus_1)
  moreover have "push_bit 20 n AND mask 12 = (0 :: u32)"
    by (rule bit_word_eqI) (auto simp: bit_simps)
  ultimately show ?thesis using Some by (simp add: main_memorySize_def)
qed

lemma tc_inv_any_quadrant:
  "tc_inv s \<Longrightarrow> any_quadrant s n \<longleftrightarrow> n \<in> set (populated s)"
  by (auto simp: tc_inv_def any_quadrant_def)

lemma setpage_miss_populated:
  assumes "\<not> memorySize s \<le> p" "kernelReadPageTable s (drop_bit 12 v) = 0"
  shows "populated (snd (setpage v p w u s)) =
           (if TPAGES \<le> tpages s then [] else populated s) @ [drop_bit 12 v]"
proof -
  define s0 where "s0 = (if TPAGES \<le> tpages s then flush s else s)"
  have "populated (snd (setpage v p w u s)) = populated s0 @ [drop_bit 12 v]"
    unfolding setpage_miss [OF assms s0_def] by (simp add: populated_def)
  moreover have "populated s0 = (if TPAGES \<le> tpages s then [] else populated s)"
    by (simp add: s0_def flush_populated)
  ultimately show ?thesis by simp
qed

text \<open>
  C4. In every state reached from the all-zero cache by installs and flushes: no page number
  occurs twice in the populated list; a page number has a nonzero entry in one of the four
  tables exactly when it is in the list; and an install that succeeds on a page number whose
  four entries are zero appends it to the list, after the list has been emptied by a flush
  when it already held \<open>TPAGES\<close> numbers (and then no other page number has an entry left).
\<close>

theorem populated_list_invariant:
  assumes "tc_reachable s"
  shows "distinct (populated s)
     \<and> (\<forall>n. any_quadrant s n \<longleftrightarrow> n \<in> set (populated s))
     \<and> (\<not> memorySize s \<le> p \<and> \<not> any_quadrant s (drop_bit 12 v) \<longrightarrow>
          (if tpages s < TPAGES
           then populated (snd (setpage v p w u s)) = populated s @ [drop_bit 12 v]
           else tpages s = TPAGES
              \<and> populated (snd (setpage v p w u s)) = [drop_bit 12 v]
              \<and> (\<forall>n. any_quadrant (snd (setpage v p w u s)) n \<longleftrightarrow> n = drop_bit 12 v)))"
proof -
  have inv: "tc_inv s" using assms by (rule tc_reachable_inv)
  have inv': "tc_inv (snd (setpage v p w u s))" using inv by (rule setpage_inv)
  have 1: "distinct (populated s)" using inv by (simp add: tc_inv_def)
  have 2: "\<forall>n. any_quadrant s n \<longleftrightarrow> n \<in> set (populated s)"
    using tc_inv_any_quadrant [OF inv] by simp
  have 3: "if tpages s < TPAGES
           then populated (snd (setpage v p w u s)) = populated s @ [drop_bit 12 v]
           else tpages s = TPAGES
              \<and> populated (snd (setpage v p w u s)) = [drop_bit 12 v]
              \<and> (\<forall>n. any_quadrant (snd (setpage v p w u s)) n \<longleftrightarrow> n = drop_bit 12 v)"
    if big: "\<not> memorySize s \<le> p" and empty: "\<not> any_quadrant s (drop_bit 12 v)"
  proof -
    have kr: "kernelReadPageTable s (drop_bit 12 v) = 0"
      using empty by (simp add: any_quadrant_def)
    note pop = setpage_miss_populated [OF big kr, of w u]
    show ?thesis
    proof (cases "tpages s < TPAGES")
      case True
      then show ?thesis using pop by simp
    next
      case False
      then have full: "tpages s = TPAGES" using inv by (simp add: tc_inv_def)
      have p1: "populated (snd (setpage v p w u s)) = [drop_bit 12 v]" using pop full by simp
      have "\<forall>n. any_quadrant (snd (setpage v p w u s)) n \<longleftrightarrow> n = drop_bit 12 v"
        using tc_inv_any_quadrant [OF inv'] p1 by simp
      then show ?thesis using False full p1 by simp
    qed
  qed
  show ?thesis using 1 2 3 by blast
qed

definition boot1 :: machine where
  "boot1 = snd (setpage 0x5123 0x3007 1 0 boot0)"

lemma boot0_initial: "tc_initial boot0"
  by (simp add: tc_initial_def boot0_def power_on_def)

lemma boot1_eval:
  "boot1 = boot0\<lparr>tpage := (\<lambda>_. 0)(0 := 5), tpages := 1,
     kernelReadPageTable := (\<lambda>_. 0)(5 := 0x10006001),
     kernelWritePageTable := (\<lambda>_. 0)(5 := 0x10006001),
     userReadPageTable := (\<lambda>_. 0)(5 := 0),
     userWritePageTable := (\<lambda>_. 0)(5 := 0)\<rparr>"
  by (simp add: boot1_def boot0_def power_on_def setpage_def Let_def)

theorem populated_list_invariant_witness:
  "tc_reachable boot1
   \<and> distinct (populated boot1)
   \<and> populated boot1 = [5]
   \<and> any_quadrant boot1 5
   \<and> \<not> memorySize boot1 \<le> 0x2000
   \<and> \<not> any_quadrant boot1 (drop_bit 12 0x7abc)
   \<and> populated (snd (setpage 0x7abc 0x2000 0 1 boot1)) = [5, 7]"
proof -
  have r: "tc_reachable boot1"
    unfolding boot1_def by (rule tc_reachable.install [OF tc_reachable.init [OF boot0_initial]])
  have pop: "populated boot1 = [5]"
    by (simp add: boot1_eval populated_def)
  have a: "\<not> memorySize boot1 \<le> 0x2000" "\<not> any_quadrant boot1 (drop_bit 12 0x7abc)"
    "tpages boot1 < TPAGES"
    by (simp_all add: boot1_eval any_quadrant_def boot0_def power_on_def)
  show ?thesis
    using populated_list_invariant [OF r, of "0x2000" "0x7abc" 0 1] r pop a
    by simp
qed

lemma flush_idem: "flush (flush s) = flush s"
  using flush_effect [of s] by (subst flush.simps) simp

text \<open>
  C9. In every reachable cache state, after \<open>flush\<close> every lookup, of any address in any of
  the four tables, gives 0; and a second \<open>flush\<close> right after the first changes nothing.
\<close>

theorem flush_then_lookup:
  assumes "tc_reachable s"
  shows "lookup (flush s) v q = 0 \<and> flush (flush s) = flush s"
proof -
  have inv: "tc_inv s" using assms by (rule tc_reachable_inv)
  have "lookup (flush s) v q = 0"
    using flush_inv(2-5) [OF inv] by (cases q) (simp_all add: lookup_def)
  then show ?thesis using flush_idem by simp
qed

theorem flush_then_lookup_witness:
  "tc_reachable boot1 \<and> lookup boot1 0x5123 KernelRead = 0x10006001
   \<and> lookup (flush boot1) 0x5123 KernelRead = 0
   \<and> flush (flush boot1) = flush boot1"
proof -
  have r: "tc_reachable boot1"
    unfolding boot1_def by (rule tc_reachable.install [OF tc_reachable.init [OF boot0_initial]])
  have l: "lookup boot1 0x5123 KernelRead = 0x10006001"
    by (simp add: boot1_eval lookup_def)
  show ?thesis using flush_then_lookup [OF r, of "0x5123" KernelRead] r l by simp
qed



section \<open>What the cache operations leave unchanged\<close>

lemma flush_shape:
  "\<exists>k w r x. flush s = s\<lparr>tpages := 0, kernelReadPageTable := k, kernelWritePageTable := w,
     userReadPageTable := r, userWritePageTable := x\<rparr>"
proof (induction s rule: flush.induct)
  case (1 s)
  show ?case
  proof (cases "tpages s = 0")
    case True
    have "flush s = s" using True by (subst flush.simps) simp
    moreover have "s = s\<lparr>tpages := 0, kernelReadPageTable := kernelReadPageTable s,
      kernelWritePageTable := kernelWritePageTable s,
      userReadPageTable := userReadPageTable s, userWritePageTable := userWritePageTable s\<rparr>"
      using True by simp
    ultimately show ?thesis by metis
  next
    case False
    let ?n = "tpages s - 1"
    let ?s' = "s\<lparr>tpages := ?n,
             kernelReadPageTable := (kernelReadPageTable s)(tpage s ?n := 0),
             kernelWritePageTable := (kernelWritePageTable s)(tpage s ?n := 0),
             userReadPageTable := (userReadPageTable s)(tpage s ?n := 0),
             userWritePageTable := (userWritePageTable s)(tpage s ?n := 0)\<rparr>"
    have f: "flush s = flush ?s'"
      using False by (subst flush.simps) (simp add: Let_def)
    from "1.IH" [OF False refl refl] obtain k w r x where
      "flush ?s' = ?s'\<lparr>tpages := 0, kernelReadPageTable := k, kernelWritePageTable := w,
         userReadPageTable := r, userWritePageTable := x\<rparr>" by blast
    then have "flush s = s\<lparr>tpages := 0, kernelReadPageTable := k, kernelWritePageTable := w,
         userReadPageTable := r, userWritePageTable := x\<rparr>"
      unfolding f by simp
    then show ?thesis by blast
  qed
qed

lemma flush_frame [simp]:
  "memory (flush s) = memory s" "memorySize (flush s) = memorySize s" "user (flush s) = user s"
  "iena (flush s) = iena s" "ipend (flush s) = ipend s" "trap (flush s) = trap s"
  "ivec (flush s) = ivec s" "vadr (flush s) = vadr s"
  "virtualMemoryEnabled (flush s) = virtualMemoryEnabled s" "pageDirectory (flush s) = pageDirectory s"
  "currentReadPageTable (flush s) = currentReadPageTable s"
  "currentWritePageTable (flush s) = currentWritePageTable s" "host (flush s) = host s"
  "reg_a (flush s) = reg_a s" "reg_b (flush s) = reg_b s" "reg_c (flush s) = reg_c s"
  "ssp (flush s) = ssp s" "usp (flush s) = usp s" "xsp (flush s) = xsp s" "tsp (flush s) = tsp s"
  "fsp (flush s) = fsp s" "xpc (flush s) = xpc s" "tpc (flush s) = tpc s" "xcycle (flush s) = xcycle s"
  using flush_shape [of s] by auto

lemma setpage_frame [simp]:
  "memory (snd (setpage v p w u s)) = memory s" "memorySize (snd (setpage v p w u s)) = memorySize s"
  "user (snd (setpage v p w u s)) = user s"
  "iena (snd (setpage v p w u s)) = iena s" "ipend (snd (setpage v p w u s)) = ipend s"
  "ivec (snd (setpage v p w u s)) = ivec s"
  "virtualMemoryEnabled (snd (setpage v p w u s)) = virtualMemoryEnabled s"
  "pageDirectory (snd (setpage v p w u s)) = pageDirectory s"
  "currentReadPageTable (snd (setpage v p w u s)) = currentReadPageTable s"
  "currentWritePageTable (snd (setpage v p w u s)) = currentWritePageTable s"
  "host (snd (setpage v p w u s)) = host s"
  "reg_a (snd (setpage v p w u s)) = reg_a s" "reg_b (snd (setpage v p w u s)) = reg_b s"
  "reg_c (snd (setpage v p w u s)) = reg_c s"
  "ssp (snd (setpage v p w u s)) = ssp s" "usp (snd (setpage v p w u s)) = usp s"
  "xsp (snd (setpage v p w u s)) = xsp s" "tsp (snd (setpage v p w u s)) = tsp s"
  "fsp (snd (setpage v p w u s)) = fsp s" "xpc (snd (setpage v p w u s)) = xpc s"
  "tpc (snd (setpage v p w u s)) = tpc s" "xcycle (snd (setpage v p w u s)) = xcycle s"
  by (simp_all add: setpage_def Let_def)

lemma rlook_frame [simp]:
  "memory (snd (rlook v s)) = memory s" "memorySize (snd (rlook v s)) = memorySize s"
  "user (snd (rlook v s)) = user s"
  "iena (snd (rlook v s)) = iena s" "ipend (snd (rlook v s)) = ipend s"
  "ivec (snd (rlook v s)) = ivec s"
  "virtualMemoryEnabled (snd (rlook v s)) = virtualMemoryEnabled s"
  "pageDirectory (snd (rlook v s)) = pageDirectory s"
  "currentReadPageTable (snd (rlook v s)) = currentReadPageTable s"
  "currentWritePageTable (snd (rlook v s)) = currentWritePageTable s"
  "reg_a (snd (rlook v s)) = reg_a s" "reg_b (snd (rlook v s)) = reg_b s"
  "reg_c (snd (rlook v s)) = reg_c s"
  "ssp (snd (rlook v s)) = ssp s" "usp (snd (rlook v s)) = usp s"
  "xsp (snd (rlook v s)) = xsp s" "tsp (snd (rlook v s)) = tsp s"
  "fsp (snd (rlook v s)) = fsp s" "xpc (snd (rlook v s)) = xpc s"
  "tpc (snd (rlook v s)) = tpc s" "xcycle (snd (rlook v s)) = xcycle s"
  by (simp_all add: rlook_def Let_def)

lemma wlook_frame [simp]:
  "memory (snd (wlook v s)) = memory s" "memorySize (snd (wlook v s)) = memorySize s"
  "user (snd (wlook v s)) = user s"
  "iena (snd (wlook v s)) = iena s" "ipend (snd (wlook v s)) = ipend s"
  "ivec (snd (wlook v s)) = ivec s"
  "virtualMemoryEnabled (snd (wlook v s)) = virtualMemoryEnabled s"
  "pageDirectory (snd (wlook v s)) = pageDirectory s"
  "currentReadPageTable (snd (wlook v s)) = currentReadPageTable s"
  "currentWritePageTable (snd (wlook v s)) = currentWritePageTable s"
  "reg_a (snd (wlook v s)) = reg_a s" "reg_b (snd (wlook v s)) = reg_b s"
  "reg_c (snd (wlook v s)) = reg_c s"
  "ssp (snd (wlook v s)) = ssp s" "usp (snd (wlook v s)) = usp s"
  "xsp (snd (wlook v s)) = xsp s" "tsp (snd (wlook v s)) = tsp s"
  "fsp (snd (wlook v s)) = fsp s" "xpc (snd (wlook v s)) = xpc s"
  "tpc (snd (wlook v s)) = tpc s" "xcycle (snd (wlook v s)) = xcycle s"
  by (simp_all add: wlook_def Let_def)

lemma tr_read_frame [simp]:
  "memory (snd (tr_read v s)) = memory s" "memorySize (snd (tr_read v s)) = memorySize s"
  "user (snd (tr_read v s)) = user s"
  "iena (snd (tr_read v s)) = iena s" "ipend (snd (tr_read v s)) = ipend s"
  "ivec (snd (tr_read v s)) = ivec s"
  "virtualMemoryEnabled (snd (tr_read v s)) = virtualMemoryEnabled s"
  "pageDirectory (snd (tr_read v s)) = pageDirectory s"
  "currentReadPageTable (snd (tr_read v s)) = currentReadPageTable s"
  "currentWritePageTable (snd (tr_read v s)) = currentWritePageTable s"
  "reg_a (snd (tr_read v s)) = reg_a s" "reg_b (snd (tr_read v s)) = reg_b s"
  "reg_c (snd (tr_read v s)) = reg_c s"
  "ssp (snd (tr_read v s)) = ssp s" "usp (snd (tr_read v s)) = usp s"
  "xsp (snd (tr_read v s)) = xsp s" "tsp (snd (tr_read v s)) = tsp s"
  "fsp (snd (tr_read v s)) = fsp s" "xpc (snd (tr_read v s)) = xpc s"
  "tpc (snd (tr_read v s)) = tpc s" "xcycle (snd (tr_read v s)) = xcycle s"
  by (simp_all add: tr_read_def Let_def)

lemma tr_write_frame [simp]:
  "memory (snd (tr_write v s)) = memory s" "memorySize (snd (tr_write v s)) = memorySize s"
  "user (snd (tr_write v s)) = user s"
  "iena (snd (tr_write v s)) = iena s" "ipend (snd (tr_write v s)) = ipend s"
  "ivec (snd (tr_write v s)) = ivec s"
  "virtualMemoryEnabled (snd (tr_write v s)) = virtualMemoryEnabled s"
  "pageDirectory (snd (tr_write v s)) = pageDirectory s"
  "currentReadPageTable (snd (tr_write v s)) = currentReadPageTable s"
  "currentWritePageTable (snd (tr_write v s)) = currentWritePageTable s"
  "reg_a (snd (tr_write v s)) = reg_a s" "reg_b (snd (tr_write v s)) = reg_b s"
  "reg_c (snd (tr_write v s)) = reg_c s"
  "ssp (snd (tr_write v s)) = ssp s" "usp (snd (tr_write v s)) = usp s"
  "xsp (snd (tr_write v s)) = xsp s" "tsp (snd (tr_write v s)) = tsp s"
  "fsp (snd (tr_write v s)) = fsp s" "xpc (snd (tr_write v s)) = xpc s"
  "tpc (snd (tr_write v s)) = tpc s" "xcycle (snd (tr_write v s)) = xcycle s"
  by (simp_all add: tr_write_def Let_def)

text \<open>The host's \<open>memcmp\<close> is the same function throughout.\<close>

lemma flush_libc [simp]: "libc_memcmp (flush s) = libc_memcmp s"
  using flush_shape [of s] by auto

lemma setpage_libc [simp]:
  "libc_memcmp (snd (setpage v p w u s)) = libc_memcmp s"
  by (simp_all add: setpage_def Let_def)

lemma tr_libc [simp]:
  "libc_memcmp (snd (tr_read v s)) = libc_memcmp s"
  "libc_memcmp (snd (tr_write v s)) = libc_memcmp s"
  by (simp_all add: tr_read_def tr_write_def rlook_def wlook_def Let_def)

section \<open>Interrupt control\<close>

text \<open>
  C10. \<open>CLI\<close> in kernel ring copies \<open>iena\<close> into register \<open>a\<close>, then clears
  \<open>iena\<close>, and continues; in user ring it sets \<open>trap = FPRIV\<close> and leaves for the
  exception label, with \<open>a\<close> and \<open>iena\<close> as they were.
\<close>

theorem cli_saves_iena:
  "exec CLI immediate s =
     (if user s = 0 then (Continue, s\<lparr>reg_a := iena s, iena := 0\<rparr>)
      else (Exception, s\<lparr>trap := FPRIV\<rparr>))"
  by (simp add: cli_def)

theorem cli_saves_iena_witness:
  "exec CLI 0 (boot0\<lparr>iena := 1\<rparr>) = (Continue, boot0\<lparr>iena := 0, reg_a := 1\<rparr>)
   \<and> exec CLI 0 (boot0\<lparr>iena := 1, user := 1\<rparr>) = (Exception, boot0\<lparr>iena := 1, user := 1, trap := FPRIV\<rparr>)"
  using cli_saves_iena [of 0 "boot0\<lparr>iena := 1\<rparr>"] cli_saves_iena [of 0 "boot0\<lparr>iena := 1, user := 1\<rparr>"]
  by (simp add: boot0_def power_on_def)


section \<open>Division and modulus by zero\<close>

text \<open>
  The six division cases test their divisor and leave with \<open>trap = FARITH\<close>.
\<close>

lemma div_by_zero_traps:
  "reg_b s = 0 \<Longrightarrow> exec DIV immediate s = (Exception, s\<lparr>trap := FARITH\<rparr>)"
  "imm8 immediate = 0 \<Longrightarrow> exec DIVI immediate s = (Exception, s\<lparr>trap := FARITH\<rparr>)"
  "local32 immediate s = (Some 0, k, s1) \<Longrightarrow> exec DIVL immediate s = (Exception, s1\<lparr>trap := FARITH\<rparr>)"
  "reg_b s = 0 \<Longrightarrow> exec DVU immediate s = (Exception, s\<lparr>trap := FARITH\<rparr>)"
  "imm8 immediate = 0 \<Longrightarrow> exec DVUI immediate s = (Exception, s\<lparr>trap := FARITH\<rparr>)"
  "local32 immediate s = (Some 0, k, s1) \<Longrightarrow> exec DVUL immediate s = (Exception, s1\<lparr>trap := FARITH\<rparr>)"
  by simp_all

definition mod0 :: machine where
  "mod0 = boot0\<lparr>reg_a := 7, reg_b := 0\<rparr>"

lemma local32_mod0: "local32 0 mod0 = (Some 0, FixSp, snd (rlook 0x7C00000 mod0))"
  by (simp add: local32_def mod0_def boot0_def power_on_def imm8_def tr_read_def cur_read_def
      rlook_def setpage_def Let_def load32_def)

text \<open>
  C1. The six modulus cases have no such test: with a zero divisor they evaluate a C
  \<open>%\<close> by zero, which has no defined value, and set no trap. Here \<open>MOD\<close>, \<open>MODI\<close>,
  \<open>MODL\<close>, \<open>MDU\<close>, \<open>MDUI\<close> and \<open>MDUL\<close> run with a zero divisor (register \<open>b\<close>, the
  immediate, and the stack word are 0), next to \<open>DIV\<close> in the same state.
\<close>

theorem mod_by_zero_undefined:
  "fst (exec MOD 0 mod0) = HostUndefined \<and> fst (exec MODI 0 mod0) = HostUndefined
   \<and> fst (exec MODL 0 mod0) = HostUndefined \<and> fst (exec MDU 0 mod0) = HostUndefined
   \<and> fst (exec MDUI 0 mod0) = HostUndefined \<and> fst (exec MDUL 0 mod0) = HostUndefined
   \<and> exec DIV 0 mod0 = (Exception, mod0\<lparr>trap := FARITH\<rparr>)"
  by (simp add: local32_mod0 set_a_def c_smod_def c_umod_def imm8_def)
    (simp add: mod0_def)

section \<open>The exit status\<close>

definition boot_ok :: bootenv where
  "boot_ok = \<lparr>argc = 2, unknown_option = False, sbrk_failed = False, fs_given = False,
     fs_opened = False, fs_statted = False, fs_read_full = False, file_opened = True,
     file_statted = True, hdr_magic = 0xC0DEF00D, file_read_full = True\<rparr>"

text \<open>
  C2, as the specification states it, gives a nonzero exit status to \<open>HALT\<close> with
  register \<open>a\<close> nonzero. After a successful start-up \<open>main\<close> returns 0 however
  \<open>cpu\<close> came back: here \<open>HALT\<close> with \<open>a = 1\<close> ends with exit status 0.
\<close>

theorem halt_nonzero_exits_zero:
  "reg_a (boot0\<lparr>reg_a := 1\<rparr>) \<noteq> 0
   \<and> main_status boot_ok (fst (exec HALT 0 (boot0\<lparr>reg_a := 1\<rparr>))) = Some 0"
  by (simp add: main_status_def startup_ok_def boot_ok_def)

text \<open>
  C2, amended. When start-up succeeded the exit status is 0 after \<open>HALT\<close>, whatever
  register \<open>a\<close> holds, and after a fatal stop; when start-up failed it is \<open>-1\<close>.
\<close>

theorem exit_status:
  "main_status e (fst (exec HALT immediate s)) = (if startup_ok e then Some 0 else Some (- 1))
   \<and> main_status e Fatal = (if startup_ok e then Some 0 else Some (- 1))"
  by (simp add: main_status_def)

theorem exit_status_witness:
  "main_status boot_ok (fst (exec HALT 0 (boot0\<lparr>reg_a := 1\<rparr>))) = Some 0
   \<and> main_status boot_ok Fatal = Some 0
   \<and> main_status (boot_ok\<lparr>hdr_magic := 0\<rparr>) (fst (exec HALT 0 boot0)) = Some (- 1)"
  using exit_status [of boot_ok 0 "boot0\<lparr>reg_a := 1\<rparr>"] exit_status [of "boot_ok\<lparr>hdr_magic := 0\<rparr>" 0 boot0]
  by (simp add: startup_ok_def boot_ok_def)


section \<open>The page-table walk\<close>

subsection \<open>Bytes and words of host memory\<close>

lemma ucast_load32_0: "ucast (load32 h p) = h p"
  unfolding load32_def by (rule bit_word_eqI) (auto simp: bit_simps dest: bit_imp_le_length)

lemma ucast_load32_1: "ucast (drop_bit 8 (load32 h p)) = h (p + 1)"
  unfolding load32_def by (rule bit_word_eqI) (auto simp: bit_simps dest: bit_imp_le_length)

lemma ucast_load32_2: "ucast (drop_bit 16 (load32 h p)) = h (p + 2)"
  unfolding load32_def by (rule bit_word_eqI) (auto simp: bit_simps dest: bit_imp_le_length)

lemma ucast_load32_3: "ucast (drop_bit 24 (load32 h p)) = h (p + 3)"
  unfolding load32_def by (rule bit_word_eqI) (auto simp: bit_simps dest: bit_imp_le_length)


lemma load32_store32: "load32 (store32 h p w) p = w"
  unfolding load32_def store32_def
  apply (rule bit_word_eqI)
  apply (auto simp: bit_simps not_less dest: bit_imp_le_length)
  subgoal for n by (cases "24 \<le> n") auto
  done

lemma store32_or_accessed:
  "store32 h p (load32 h p OR PTE_A) = h(p := h p OR 0x20)"
proof -
  have 0: "ucast (load32 h p OR 0x20) = h p OR 0x20"
    unfolding load32_def by (rule bit_word_eqI) (auto simp: bit_simps dest: bit_imp_le_length)
  have 1: "ucast (drop_bit 8 (load32 h p OR 0x20)) = h (p + 1)"
    unfolding load32_def by (rule bit_word_eqI) (auto simp: bit_simps dest: bit_imp_le_length)
  have 2: "ucast (drop_bit 16 (load32 h p OR 0x20)) = h (p + 2)"
    unfolding load32_def by (rule bit_word_eqI) (auto simp: bit_simps dest: bit_imp_le_length)
  have 3: "ucast (drop_bit 24 (load32 h p OR 0x20)) = h (p + 3)"
    unfolding load32_def by (rule bit_word_eqI) (auto simp: bit_simps dest: bit_imp_le_length)
  show ?thesis
    unfolding store32_def 0 1 2 3 by (rule ext) simp
qed

subsection \<open>The quantities of a walk\<close>

text \<open>
  The walkers compute, for an address \<open>v\<close>: the pointer to the page-directory entry and the
  entry; memory after the accessed bit of that entry is set; the pointer to the page-table
  entry and the entry, read from that memory; \<open>q\<close>; and memory after the read walk has set
  the accessed bit of the page-table entry, or the write walk its accessed and dirty bits.
\<close>

definition pde_ptr :: "machine \<Rightarrow> u32 \<Rightarrow> u32" where
  "pde_ptr s v = pageDirectory s + push_bit 2 (drop_bit 22 v)"

definition walk_pde :: "machine \<Rightarrow> u32 \<Rightarrow> u32" where
  "walk_pde s v = load32 (host s) (pde_ptr s v)"

definition pde_marked :: "machine \<Rightarrow> u32 \<Rightarrow> u32 \<Rightarrow> u8" where
  "pde_marked s v = (if walk_pde s v AND PTE_A = 0
     then store32 (host s) (pde_ptr s v) (walk_pde s v OR PTE_A) else host s)"

definition pte_ptr :: "machine \<Rightarrow> u32 \<Rightarrow> u32" where
  "pte_ptr s v = memory s + (walk_pde s v AND - 4096) + (drop_bit 10 v AND 0xffc)"

definition walk_pte :: "machine \<Rightarrow> u32 \<Rightarrow> u32" where
  "walk_pte s v = load32 (pde_marked s v) (pte_ptr s v)"

definition walk_q :: "machine \<Rightarrow> u32 \<Rightarrow> u32" where
  "walk_q s v = walk_pte s v AND walk_pde s v"

definition read_marked :: "machine \<Rightarrow> u32 \<Rightarrow> u32 \<Rightarrow> u8" where
  "read_marked s v = (if walk_pte s v AND PTE_A = 0
     then store32 (pde_marked s v) (pte_ptr s v) (walk_pte s v OR PTE_A) else pde_marked s v)"

definition write_marked :: "machine \<Rightarrow> u32 \<Rightarrow> u32 \<Rightarrow> u8" where
  "write_marked s v = (if walk_pte s v AND (PTE_D OR PTE_A) \<noteq> (PTE_D OR PTE_A)
     then store32 (pde_marked s v) (pte_ptr s v) (walk_pte s v OR (PTE_D OR PTE_A))
     else pde_marked s v)"

definition read_walk_ok :: "machine \<Rightarrow> u32 \<Rightarrow> bool" where
  "read_walk_ok s v \<longleftrightarrow> virtualMemoryEnabled s \<noteq> 0 \<and> walk_pde s v AND PTE_P \<noteq> 0
     \<and> walk_pde s v < memorySize s \<and> walk_pte s v AND PTE_P \<noteq> 0
     \<and> (walk_q s v AND PTE_U \<noteq> 0 \<or> user s = 0)"

definition write_walk_ok :: "machine \<Rightarrow> u32 \<Rightarrow> bool" where
  "write_walk_ok s v \<longleftrightarrow> read_walk_ok s v \<and> walk_q s v AND PTE_W \<noteq> 0"

lemma rlook_walk:
  assumes "read_walk_ok s v"
  shows "rlook v s = setpage v (walk_pte s v)
           (c_bool (walk_pte s v AND PTE_D \<noteq> 0 \<and> walk_q s v AND PTE_W \<noteq> 0))
           (walk_q s v AND PTE_U) (s\<lparr>host := read_marked s v\<rparr>)"
  using assms
  by (simp add: read_walk_ok_def rlook_def Let_def walk_pde_def [symmetric] pde_ptr_def [symmetric])
    (auto simp: pde_marked_def pte_ptr_def walk_pte_def walk_q_def read_marked_def not_le)

lemma wlook_walk:
  assumes "write_walk_ok s v"
  shows "wlook v s = setpage v (walk_pte s v) (walk_q s v AND PTE_W) (walk_q s v AND PTE_U)
           (s\<lparr>host := write_marked s v\<rparr>)"
  using assms
  by (simp add: write_walk_ok_def read_walk_ok_def wlook_def Let_def walk_pde_def [symmetric]
      pde_ptr_def [symmetric])
    (auto simp: pde_marked_def pte_ptr_def walk_pte_def walk_q_def write_marked_def not_le)


lemma load32_read_marked:
  "load32 (read_marked s v) (pte_ptr s v) =
     (if walk_pte s v AND PTE_A = 0 then walk_pte s v OR PTE_A else walk_pte s v)"
  by (simp add: read_marked_def load32_store32) (simp add: walk_pte_def)

lemma or_accessed_dirty: "((x::u32) OR PTE_A) AND PTE_D = x AND PTE_D"
  by (simp add: bit.conj_disj_distrib2)

lemma rlook_writable_dirty:
  assumes ok: "read_walk_ok s v" and nz: "fst (rlook v s) \<noteq> 0"
    and w: "lookup (snd (rlook v s)) v KernelWrite \<noteq> 0 \<or> lookup (snd (rlook v s)) v UserWrite \<noteq> 0"
  shows "load32 (host (snd (rlook v s))) (pte_ptr s v) AND PTE_D \<noteq> 0"
proof -
  let ?wb = "c_bool (walk_pte s v AND PTE_D \<noteq> 0 \<and> walk_q s v AND PTE_W \<noteq> 0)"
  let ?s2 = "s\<lparr>host := read_marked s v\<rparr>"
  note eq = rlook_walk [OF ok]
  have big: "\<not> memorySize ?s2 \<le> walk_pte s v"
    using nz unfolding eq by (auto simp: setpage_def)
  have "?wb \<noteq> 0"
    using w setpage_ok_tables(2,4) [OF big, of v ?wb "walk_q s v AND PTE_U"]
    unfolding eq lookup_def by (auto split: if_splits)
  then have d: "walk_pte s v AND PTE_D \<noteq> 0" by (simp add: c_bool_def split: if_splits)
  have "host (snd (rlook v s)) = read_marked s v" unfolding eq by simp
  then show ?thesis
    using d by (simp add: load32_read_marked or_accessed_dirty)
qed

text \<open>
  C3. When the read walk of \<open>v\<close> reaches its install (paging on, PDE present and below
  \<open>memorySize\<close>, PTE present, and user-accessible or kernel ring), \<open>rlook\<close> is the call of
  \<open>setpage\<close> with \<open>writable = (PTE & D) && (q & W)\<close> and \<open>userable = q & U\<close>, \<open>q = PDE & PTE\<close>,
  on the memory with the accessed bits set; when the write walk reaches its install (the
  same and \<open>q & W\<close>), \<open>wlook\<close> is the call with \<open>writable = q & W\<close>. So after a read walk
  that installed, a nonzero kernel-write or user-write entry for the page means that the PTE
  in guest memory has its dirty bit set.
\<close>

theorem walker_installs:
  "(read_walk_ok s v \<longrightarrow>
      rlook v s = setpage v (walk_pte s v)
        (c_bool (walk_pte s v AND PTE_D \<noteq> 0 \<and> walk_q s v AND PTE_W \<noteq> 0))
        (walk_q s v AND PTE_U) (s\<lparr>host := read_marked s v\<rparr>))
   \<and> (write_walk_ok s v \<longrightarrow>
      wlook v s = setpage v (walk_pte s v) (walk_q s v AND PTE_W) (walk_q s v AND PTE_U)
        (s\<lparr>host := write_marked s v\<rparr>))
   \<and> (read_walk_ok s v \<and> fst (rlook v s) \<noteq> 0
        \<and> (lookup (snd (rlook v s)) v KernelWrite \<noteq> 0 \<or> lookup (snd (rlook v s)) v UserWrite \<noteq> 0)
      \<longrightarrow> load32 (host (snd (rlook v s))) (pte_ptr s v) AND PTE_D \<noteq> 0)"
  using rlook_walk wlook_walk rlook_writable_dirty by blast

text \<open>
  A machine with paging on: the page directory at physical 0x1000 maps the first 4 MiB
  through the page table at 0x2000 (present, writable, user); the page table maps page 5 to
  physical 0x3000 (present, writable, user, dirty) and page 6 to physical 0x4000 (present,
  writable, user, clean).
\<close>

definition paged0 :: machine where
  "paged0 = boot0\<lparr>virtualMemoryEnabled := 1, pageDirectory := 0x10001000,
     host := store32 (store32 (store32 (\<lambda>_. 0) 0x10001000 0x2007) 0x10002014 0x3047)
               0x10002018 0x4007\<rparr>"


lemma paged0_fields:
  "virtualMemoryEnabled paged0 = 1" "user paged0 = 0" "memorySize paged0 = 0x8000000"
  "memory paged0 = 0x10000000" "pageDirectory paged0 = 0x10001000" "tpages paged0 = 0"
  "kernelReadPageTable paged0 = (\<lambda>_. 0)" "kernelWritePageTable paged0 = (\<lambda>_. 0)"
  "userReadPageTable paged0 = (\<lambda>_. 0)" "userWritePageTable paged0 = (\<lambda>_. 0)"
  by (simp_all add: paged0_def boot0_def power_on_def)

lemma paged0_walk5:
  "walk_pde paged0 0x5123 = 0x2007" "walk_pte paged0 0x5123 = 0x3047"
  "pte_ptr paged0 0x5123 = 0x10002014"
  by (simp_all add: walk_pte_def pte_ptr_def pde_marked_def walk_pde_def pde_ptr_def paged0_fields)
    (simp_all add: paged0_def load32_def store32_def)

lemma paged0_walk6:
  "walk_pde paged0 0x6abc = 0x2007" "walk_pte paged0 0x6abc = 0x4007"
  "pte_ptr paged0 0x6abc = 0x10002018"
  by (simp_all add: walk_pte_def pte_ptr_def pde_marked_def walk_pde_def pde_ptr_def paged0_fields)
    (simp_all add: paged0_def load32_def store32_def)

theorem walker_installs_witness:
  "read_walk_ok paged0 0x5123
   \<and> fst (rlook 0x5123 paged0) = 0x10006001
   \<and> lookup (snd (rlook 0x5123 paged0)) 0x5123 KernelWrite = 0x10006001
   \<and> load32 (host (snd (rlook 0x5123 paged0))) (pte_ptr paged0 0x5123) AND PTE_D \<noteq> 0
   \<and> read_walk_ok paged0 0x6abc
   \<and> fst (rlook 0x6abc paged0) = 0x10002001
   \<and> lookup (snd (rlook 0x6abc paged0)) 0x6abc KernelWrite = 0
   \<and> write_walk_ok paged0 0x6abc
   \<and> fst (wlook 0x6abc paged0) = 0x10002001
   \<and> lookup (snd (wlook 0x6abc paged0)) 0x6abc KernelWrite = 0x10002001"
proof -
  have ok5: "read_walk_ok paged0 0x5123"
    by (simp add: read_walk_ok_def walk_q_def paged0_walk5 paged0_fields)
  have ok6: "read_walk_ok paged0 0x6abc" "write_walk_ok paged0 0x6abc"
    by (simp_all add: write_walk_ok_def read_walk_ok_def walk_q_def paged0_walk6 paged0_fields)
  note t5 = walker_installs [of paged0 "0x5123"]
  note t6 = walker_installs [of paged0 "0x6abc"]
  have r5: "rlook 0x5123 paged0 = setpage 0x5123 0x3047 1 4 (paged0\<lparr>host := read_marked paged0 0x5123\<rparr>)"
    using t5 ok5 by (simp add: walk_q_def paged0_walk5 c_bool_def)
  have r6: "rlook 0x6abc paged0 = setpage 0x6abc 0x4007 0 4 (paged0\<lparr>host := read_marked paged0 0x6abc\<rparr>)"
    using t6 ok6 by (simp add: walk_q_def paged0_walk6 c_bool_def)
  have w6: "wlook 0x6abc paged0 = setpage 0x6abc 0x4007 2 4 (paged0\<lparr>host := write_marked paged0 0x6abc\<rparr>)"
    using t6 ok6 by (simp add: walk_q_def paged0_walk6)
  have e5: "fst (rlook 0x5123 paged0) = 0x10006001"
    "lookup (snd (rlook 0x5123 paged0)) 0x5123 KernelWrite = 0x10006001"
    unfolding r5 by (simp_all add: setpage_def Let_def lookup_def paged0_fields)
  have e6: "fst (rlook 0x6abc paged0) = 0x10002001"
    "lookup (snd (rlook 0x6abc paged0)) 0x6abc KernelWrite = 0"
    unfolding r6 by (simp_all add: setpage_def Let_def lookup_def paged0_fields)
  have f6: "fst (wlook 0x6abc paged0) = 0x10002001"
    "lookup (snd (wlook 0x6abc paged0)) 0x6abc KernelWrite = 0x10002001"
    unfolding w6 by (simp_all add: setpage_def Let_def lookup_def paged0_fields)
  have nz: "fst (rlook 0x5123 paged0) \<noteq> 0" using e5 by simp
  have kw: "lookup (snd (rlook 0x5123 paged0)) 0x5123 KernelWrite \<noteq> 0
      \<or> lookup (snd (rlook 0x5123 paged0)) 0x5123 UserWrite \<noteq> 0" using e5 by simp
  have d5: "load32 (host (snd (rlook 0x5123 paged0))) (pte_ptr paged0 0x5123) AND PTE_D \<noteq> 0"
    using t5 ok5 nz kw by blast
  show ?thesis using ok5 ok6 e5 e6 f6 d5 by simp
qed

section \<open>Stores to a write-protected page\<close>

text \<open>
  The guest address that a store translates: \<open>b + (immediate>>8)\<close> for the indexed stores,
  \<open>xpc - tpc + (immediate>>8)\<close> for the global ones, \<open>xsp - tsp + (immediate>>8)\<close> for the
  local ones; none when a local store goes through the stack window (\<open>immediate < fsp\<close>),
  and none for an opcode that is not a store.
\<close>

fun store_address :: "opcode \<Rightarrow> u32 \<Rightarrow> machine \<Rightarrow> u32 option" where
  "store_address SX immediate s = Some (reg_b s + imm8 immediate)"
| "store_address SXH immediate s = Some (reg_b s + imm8 immediate)"
| "store_address SXB immediate s = Some (reg_b s + imm8 immediate)"
| "store_address SXD immediate s = Some (reg_b s + imm8 immediate)"
| "store_address SXF immediate s = Some (reg_b s + imm8 immediate)"
| "store_address SG immediate s = Some (xpc s - tpc s + imm8 immediate)"
| "store_address SGH immediate s = Some (xpc s - tpc s + imm8 immediate)"
| "store_address SGB immediate s = Some (xpc s - tpc s + imm8 immediate)"
| "store_address SGD immediate s = Some (xpc s - tpc s + imm8 immediate)"
| "store_address SGF immediate s = Some (xpc s - tpc s + imm8 immediate)"
| "store_address SL immediate s =
     (if immediate < fsp s then None else Some (xsp s - tsp s + imm8 immediate))"
| "store_address SLH immediate s =
     (if immediate < fsp s then None else Some (xsp s - tsp s + imm8 immediate))"
| "store_address SLB immediate s =
     (if immediate < fsp s then None else Some (xsp s - tsp s + imm8 immediate))"
| "store_address SLD immediate s =
     (if immediate < fsp s then None else Some (xsp s - tsp s + imm8 immediate))"
| "store_address SLF immediate s =
     (if immediate < fsp s then None else Some (xsp s - tsp s + imm8 immediate))"
| "store_address _ immediate s = None"

text \<open>
  A page that is mapped, and not for writing: no write translation of it is cached, paging
  is on, and the walk of \<open>wlook\<close> finds the PDE present and inside physical memory, the PTE
  present, and \<open>q & W = 0\<close>.
\<close>

definition write_protected :: "machine \<Rightarrow> u32 \<Rightarrow> bool" where
  "write_protected s v \<longleftrightarrow> cur_write s (drop_bit 12 v) = 0 \<and> virtualMemoryEnabled s \<noteq> 0
     \<and> walk_pde s v AND PTE_P \<noteq> 0 \<and> walk_pde s v < memorySize s
     \<and> walk_pte s v AND PTE_P \<noteq> 0 \<and> walk_q s v AND PTE_W = 0"

lemma accessed_low_byte:
  assumes "load32 h p AND PTE_A \<noteq> 0"
  shows "h p OR 0x20 = h p"
proof -
  have "load32 h p AND 2 ^ 5 \<noteq> 0" using assms by simp
  then have "bit (load32 h p) 5" by (simp only: and_exp_eq_0_iff_not_bit) simp
  then have "bit (ucast (load32 h p) :: u8) 5" by (simp add: bit_simps)
  then have b: "bit (h p) 5" by (simp only: ucast_load32_0)
  have "h p OR 2 ^ 5 = h p"
  proof (rule bit_word_eqI)
    fix n
    show "bit (h p OR 2 ^ 5) n = bit (h p) n"
      using b by (cases "n = 5") (simp_all only: bit_or_iff bit_exp_iff, auto)
  qed
  then show ?thesis by simp
qed

lemma pde_marked_byte:
  "pde_marked s v = (host s)(pde_ptr s v := host s (pde_ptr s v) OR 0x20)"
proof (cases "walk_pde s v AND PTE_A = 0")
  case True
  then show ?thesis
    by (simp add: pde_marked_def walk_pde_def store32_or_accessed)
next
  case False
  then have "host s (pde_ptr s v) OR 0x20 = host s (pde_ptr s v)"
    unfolding walk_pde_def by (rule accessed_low_byte)
  then show ?thesis using False by (simp add: pde_marked_def)
qed

lemma wlook_protected:
  assumes "virtualMemoryEnabled s \<noteq> 0" "walk_pde s v AND PTE_P \<noteq> 0" "walk_pde s v < memorySize s"
    "walk_q s v AND PTE_W = 0"
  shows "wlook v s = (0, s\<lparr>host := pde_marked s v, trap := FWPAGE, vadr := v\<rparr>)"
  using assms
  by (simp add: wlook_def Let_def walk_pde_def [symmetric] pde_ptr_def [symmetric])
    (auto simp: pde_marked_def pte_ptr_def walk_pte_def walk_q_def not_le)

lemma tr_write_protected:
  assumes "write_protected s v"
  shows "tr_write v s = (0, s\<lparr>host := pde_marked s v, trap := FWPAGE, vadr := v\<rparr>)"
  using assms by (simp add: write_protected_def tr_write_def wlook_protected)

lemma store_xlat_protected:
  assumes "write_protected s v"
  shows "store_xlat w v s = (Exception, s\<lparr>host := pde_marked s v, trap := FWPAGE, vadr := v\<rparr>)"
  by (simp add: store_xlat_def tr_write_protected [OF assms])

lemma fstore_xlat_protected:
  assumes "write_protected s v"
  shows "fstore_xlat w v s = (Exception, s\<lparr>host := pde_marked s v, trap := FWPAGE, vadr := v\<rparr>)"
  by (simp add: fstore_xlat_def tr_write_protected [OF assms])

lemma exec_store_protected:
  assumes "store_address op immediate s = Some v" "write_protected s v"
  shows "exec op immediate s = (Exception, s\<lparr>host := pde_marked s v, trap := FWPAGE, vadr := v\<rparr>)"
  using assms
  by (cases op)
    (auto simp: store_xlat_protected fstore_xlat_protected store_local_def fstore_local_def
      split: if_splits)


lemma setpage_ok_latches:
  "fst (setpage v p w u s) \<noteq> 0 \<Longrightarrow>
     vadr (snd (setpage v p w u s)) = vadr s \<and> trap (snd (setpage v p w u s)) = trap s"
  by (auto simp: setpage_def Let_def split: if_splits)

lemma wlook_denied:
  assumes "virtualMemoryEnabled s \<noteq> 0" "\<not> write_walk_ok s v"
  shows "fst (wlook v s) = 0"
  using assms
  by (simp add: write_walk_ok_def read_walk_ok_def wlook_def Let_def walk_pde_def [symmetric]
      pde_ptr_def [symmetric])
    (auto simp: pde_marked_def pte_ptr_def walk_pte_def walk_q_def not_le)

lemma wlook_ok_latches:
  assumes "fst (wlook v s) \<noteq> 0"
  shows "vadr (snd (wlook v s)) = vadr s \<and> trap (snd (wlook v s)) = trap s"
proof (cases "virtualMemoryEnabled s = 0")
  case True
  then have "wlook v s = setpage v v 1 1 s" by (simp add: wlook_def)
  then show ?thesis using assms setpage_ok_latches [of v v 1 1 s] by simp
next
  case False
  then have ok: "write_walk_ok s v" using assms wlook_denied by blast
  show ?thesis
    using assms setpage_ok_latches [of v "walk_pte s v" "walk_q s v AND PTE_W" "walk_q s v AND PTE_U"
        "s\<lparr>host := write_marked s v\<rparr>"]
    unfolding wlook_walk [OF ok] by simp
qed

lemma tr_write_ok_latches:
  "fst (tr_write v s) \<noteq> 0 \<Longrightarrow>
     vadr (snd (tr_write v s)) = vadr s \<and> trap (snd (tr_write v s)) = trap s"
  using wlook_ok_latches [of v s] by (simp add: tr_write_def Let_def split: if_splits)


lemma tr_write_ok_vadr: "fst (tr_write v s) \<noteq> 0 \<Longrightarrow> vadr (snd (tr_write v s)) = vadr s"
  and tr_write_ok_trap: "fst (tr_write v s) \<noteq> 0 \<Longrightarrow> trap (snd (tr_write v s)) = trap s"
  using tr_write_ok_latches by blast+

lemma interrupt_entry_result:
  "fst (interrupt_entry s) = Fatal \<or>
   (fst (interrupt_entry s) = FixPc
    \<and> xpc (snd (interrupt_entry s)) - tpc (snd (interrupt_entry s)) = ivec s
    \<and> vadr (snd (interrupt_entry s)) = vadr s
    \<and> trap (snd (interrupt_entry s)) = (if user s \<noteq> 0 then trap s OR USER else trap s))"
  by (simp add: interrupt_entry_def Let_def case_prod_unfold tr_write_ok_vadr tr_write_ok_trap)

text \<open>
  The two pushes of trap delivery, at the label \<open>interrupt\<close>. \<open>trap_frame\<close> is the state at
  the first of them: the stack window closed, the ring switched to kernel when the trap came
  from user ring, and \<open>xsp\<close> lowered by 8. \<open>pushes_translate\<close> says that neither guard
  \<open>if (!(p = currentWritePageTable[xsp >> 12]) && !(p = wlook(xsp)))\<close> sends delivery to
  \<open>fatal\<close>: the first push translates, and so does the second, in the state after the
  first.
\<close>

definition trap_frame :: "machine \<Rightarrow> machine" where
  "trap_frame s =
     (let s1 = s\<lparr>xsp := xsp s - tsp s, tsp := 0, fsp := 0\<rparr>;
          s2 = (if user s1 \<noteq> 0
                then s1\<lparr>usp := xsp s1, xsp := ssp s1, user := 0,
                        currentReadPageTable := KernelTables, currentWritePageTable := KernelTables,
                        trap := trap s1 OR USER\<rparr>
                else s1)
      in s2\<lparr>xsp := xsp s2 - 8\<rparr>)"

definition pushes_translate :: "machine \<Rightarrow> bool" where
  "pushes_translate s =
     (let s3 = trap_frame s
      in case tr_write (xsp s3) s3 of (p, s4) \<Rightarrow>
           p \<noteq> 0 \<and>
           (let s5 = s4\<lparr>host := store32 (host s4) ((xsp s4 XOR p) AND - 8) (xpc s4 - tpc s4)\<rparr>;
                s6 = s5\<lparr>xsp := xsp s5 - 8\<rparr>
            in fst (tr_write (xsp s6) s6) \<noteq> 0))"

lemma interrupt_entry_fst:
  "fst (interrupt_entry s) = (if pushes_translate s then FixPc else Fatal)"
  by (simp add: interrupt_entry_def pushes_translate_def trap_frame_def Let_def case_prod_unfold)

lemma interrupt_entry_user:
  "fst (interrupt_entry s) = FixPc \<Longrightarrow> user (snd (interrupt_entry s)) = 0"
  by (simp add: interrupt_entry_def Let_def case_prod_unfold split: if_splits)

lemma interrupt_entry_vector:
  assumes "pushes_translate s"
  shows "fst (interrupt_entry s) = FixPc
    \<and> xpc (snd (interrupt_entry s)) - tpc (snd (interrupt_entry s)) = ivec s
    \<and> vadr (snd (interrupt_entry s)) = vadr s
    \<and> trap (snd (interrupt_entry s)) = (if user s \<noteq> 0 then trap s OR USER else trap s)
    \<and> user (snd (interrupt_entry s)) = 0"
proof -
  have f: "fst (interrupt_entry s) = FixPc" using assms by (simp add: interrupt_entry_fst)
  show ?thesis using interrupt_entry_result [of s] interrupt_entry_user [OF f] f by simp
qed

lemma tr_write_hit:
  "cur_write s (drop_bit 12 v) \<noteq> 0 \<Longrightarrow> tr_write v s = (cur_write s (drop_bit 12 v), s)"
  by (simp add: tr_write_def Let_def)

text \<open>
  A machine in which the page directory at physical 0x1000 maps itself, read-only, as the
  page table of the first 4 MiB, so that guest address 0 is the low byte of the
  page-directory entry that its own walk reads.
\<close>

definition selfmap0 :: machine where
  "selfmap0 = boot0\<lparr>virtualMemoryEnabled := 1, pageDirectory := 0x10001000,
     host := store32 (\<lambda>_. 0) 0x10001000 0x1001, reg_a := 0xAABBCCDD\<rparr>"

lemma selfmap0_fields:
  "virtualMemoryEnabled selfmap0 = 1" "user selfmap0 = 0" "memorySize selfmap0 = 0x8000000"
  "memory selfmap0 = 0x10000000" "pageDirectory selfmap0 = 0x10001000" "iena selfmap0 = 0"
  "reg_b selfmap0 = 0" "kernelWritePageTable selfmap0 = (\<lambda>_. 0)"
  "currentWritePageTable selfmap0 = KernelTables"
  "host selfmap0 = store32 (\<lambda>_. 0) 0x10001000 0x1001"
  by (simp_all add: selfmap0_def boot0_def power_on_def)

lemma selfmap0_walk:
  "pde_ptr selfmap0 0 = 0x10001000" "walk_pde selfmap0 0 = 0x1001" "walk_pte selfmap0 0 = 0x1021"
  "pte_ptr selfmap0 0 = 0x10001000"
  by (simp_all add: walk_pte_def pte_ptr_def pde_marked_def walk_pde_def pde_ptr_def selfmap0_fields)
    (simp_all add: load32_def store32_def)

lemma selfmap0_protected: "write_protected selfmap0 0"
  by (simp add: write_protected_def walk_q_def selfmap0_walk selfmap0_fields cur_write_def)

text \<open>
  A machine with interrupts enabled whose page tables map page 0x100 read-only (PTE 0x5005:
  present, user), with the kernel stack page 7 already in the cache (writable) and the
  vector at 0x40.
\<close>

definition ro0 :: machine where
  "ro0 = boot0\<lparr>virtualMemoryEnabled := 1, pageDirectory := 0x10001000,
     host := store32 (store32 (store32 (\<lambda>_. 0) 0x10001000 0x2007) 0x10002400 0x5005)
               0x1000201C 0x7063,
     tpage := (\<lambda>_. 0)(0 := 7), tpages := 1,
     kernelReadPageTable := (\<lambda>_. 0)(7 := 0x10000001),
     kernelWritePageTable := (\<lambda>_. 0)(7 := 0x10000001),
     iena := 1, ivec := 0x40, reg_a := 0xAABBCCDD, reg_b := 0x100000, xsp := 0x8000\<rparr>"

lemma ro0_fields:
  "virtualMemoryEnabled ro0 = 1" "user ro0 = 0" "memorySize ro0 = 0x8000000"
  "memory ro0 = 0x10000000" "pageDirectory ro0 = 0x10001000" "iena ro0 = 1" "ivec ro0 = 0x40"
  "reg_b ro0 = 0x100000" "kernelWritePageTable ro0 = (\<lambda>_. 0)(7 := 0x10000001)"
  "currentWritePageTable ro0 = KernelTables" "xsp ro0 = 0x8000" "tsp ro0 = 0"
  "host ro0 = store32 (store32 (store32 (\<lambda>_. 0) 0x10001000 0x2007) 0x10002400 0x5005)
               0x1000201C 0x7063"
  by (simp_all add: ro0_def boot0_def power_on_def)

lemma ro0_walk:
  "pde_ptr ro0 0x100000 = 0x10001000" "walk_pde ro0 0x100000 = 0x2007"
  "walk_pte ro0 0x100000 = 0x5005"
  by (simp_all add: walk_pte_def pte_ptr_def pde_marked_def walk_pde_def pde_ptr_def ro0_fields)
    (simp_all add: load32_def store32_def)

lemma ro0_protected: "write_protected ro0 0x100000"
  by (simp add: write_protected_def walk_q_def ro0_walk ro0_fields cur_write_def)

lemma write_protected_iena [simp]: "write_protected (s\<lparr>iena := x\<rparr>) v = write_protected s v"
  by (simp add: write_protected_def walk_q_def walk_pte_def pde_marked_def pte_ptr_def
      walk_pde_def pde_ptr_def cur_write_def split: table_ring.split)

lemma write_protected_xsp [simp]: "write_protected (s\<lparr>xsp := x\<rparr>) v = write_protected s v"
  by (simp add: write_protected_def walk_q_def walk_pte_def pde_marked_def pte_ptr_def
      walk_pde_def pde_ptr_def cur_write_def split: table_ring.split)

lemma pde_ptr_xsp [simp]: "pde_ptr (s\<lparr>xsp := x\<rparr>) v = pde_ptr s v"
  by (simp add: pde_ptr_def)

lemma cur_write_frame:
  "cur_write (s\<lparr>xsp := x\<rparr>) = cur_write s"
  "cur_write (s\<lparr>host := h\<rparr>) = cur_write s"
  "cur_write (s\<lparr>trap := y\<rparr>) = cur_write s"
  "cur_write (s\<lparr>vadr := y\<rparr>) = cur_write s"
  "cur_write (s\<lparr>tsp := y\<rparr>) = cur_write s"
  "cur_write (s\<lparr>fsp := y\<rparr>) = cur_write s"
  by (simp_all add: cur_write_def split: table_ring.split)

lemma ro0_stack_fault:
  "\<not> pushes_translate (ro0\<lparr>xsp := 0x408000, host := pde_marked ro0 0x100000, trap := FWPAGE,
       vadr := 0x100000\<rparr>)"
proof -
  have l: "load32 (pde_marked ro0 0x100000) 0x10001004 = 0"
    by (simp add: pde_marked_byte ro0_walk load32_def ro0_fields store32_def)
  have k: "cur_write ro0 0x407 = 0" by (simp add: cur_write_def ro0_fields)
  show ?thesis
    by (simp add: pushes_translate_def trap_frame_def Let_def ro0_fields tr_write_def
        cur_write_frame k wlook_def l)
qed

text \<open>
  C6, as the specification states it, has a store to a present, read-only page leave the
  target bytes of physical memory unchanged and pass control to the interrupt vector. Three
  machines where it does not. In the first, page 0x100 is mapped read-only and interrupts
  are disabled: \<open>SX\<close> with \<open>b = 0x100000\<close> sets \<open>trap = FWPAGE\<close>, and the exception
  ends at the label \<open>fatal\<close>, not at the vector. In the second, the page directory maps
  itself read-only and \<open>SX\<close> stores at address 0, whose physical target (host address
  0x10001000) is the low byte of the page-directory entry of the walk: the walk sets the
  accessed bit there before it faults, and the target byte changes from 0x01 to 0x21. The
  third is the first with interrupts enabled and the stack pointer at 0x408000, in a region
  that the page directory does not map: the push of the program counter does not translate,
  and delivery ends at \<open>fatal\<close>.
\<close>

theorem store_protected_counterexample:
  "store_address SX 0 (ro0\<lparr>iena := 0\<rparr>) = Some 0x100000
   \<and> write_protected (ro0\<lparr>iena := 0\<rparr>) 0x100000
   \<and> fst (exec SX 0 (ro0\<lparr>iena := 0\<rparr>)) = Exception
   \<and> trap (snd (exec SX 0 (ro0\<lparr>iena := 0\<rparr>))) = FWPAGE
   \<and> fst (deliver (exec SX 0 (ro0\<lparr>iena := 0\<rparr>))) = Fatal
   \<and> store_address SX 0 selfmap0 = Some 0
   \<and> write_protected selfmap0 0
   \<and> memory selfmap0 + (walk_pte selfmap0 0 AND - 4096) = 0x10001000
   \<and> fst (exec SX 0 selfmap0) = Exception
   \<and> host selfmap0 0x10001000 = 0x01
   \<and> host (snd (exec SX 0 selfmap0)) 0x10001000 = 0x21
   \<and> store_address SX 0 (ro0\<lparr>xsp := 0x408000\<rparr>) = Some 0x100000
   \<and> write_protected (ro0\<lparr>xsp := 0x408000\<rparr>) 0x100000
   \<and> iena (ro0\<lparr>xsp := 0x408000\<rparr>) = 1
   \<and> fst (exec SX 0 (ro0\<lparr>xsp := 0x408000\<rparr>)) = Exception
   \<and> trap (snd (exec SX 0 (ro0\<lparr>xsp := 0x408000\<rparr>))) = FWPAGE
   \<and> fst (deliver (exec SX 0 (ro0\<lparr>xsp := 0x408000\<rparr>))) = Fatal"
proof -
  let ?r = "ro0\<lparr>iena := 0\<rparr>"
  have ra: "store_address SX 0 ?r = Some 0x100000" by (simp add: imm8_def ro0_fields)
  have rp: "write_protected ?r 0x100000" by (simp add: ro0_protected)
  have re: "exec SX 0 ?r =
      (Exception, ?r\<lparr>host := pde_marked ?r 0x100000, trap := FWPAGE, vadr := 0x100000\<rparr>)"
    by (rule exec_store_protected [OF ra rp])
  have rd: "fst (deliver (exec SX 0 ?r)) = Fatal"
    unfolding re by (simp add: deliver_def exception_entry_def)
  have a: "store_address SX 0 selfmap0 = Some 0" by (simp add: imm8_def selfmap0_fields)
  have e: "exec SX 0 selfmap0 =
      (Exception, selfmap0\<lparr>host := pde_marked selfmap0 0, trap := FWPAGE, vadr := 0\<rparr>)"
    by (rule exec_store_protected [OF a selfmap0_protected])
  have h0: "host selfmap0 0x10001000 = 0x01" by (simp add: selfmap0_fields store32_def)
  have h1: "pde_marked selfmap0 0 0x10001000 = 0x21"
    by (simp add: pde_marked_byte selfmap0_walk h0)
  have f: "fst (exec SX 0 ?r) = Exception" "trap (snd (exec SX 0 ?r)) = FWPAGE"
    unfolding re by simp_all
  have g: "fst (exec SX 0 selfmap0) = Exception" "host (snd (exec SX 0 selfmap0)) 0x10001000 = 0x21"
    unfolding e using h1 by simp_all
  have m: "memory selfmap0 + (walk_pte selfmap0 0 AND - 4096) = 0x10001000"
    by (simp add: selfmap0_walk selfmap0_fields)
  let ?k = "ro0\<lparr>xsp := 0x408000\<rparr>"
  have ka: "store_address SX 0 ?k = Some 0x100000" by (simp add: imm8_def ro0_fields)
  have kp: "write_protected ?k 0x100000" by (simp add: ro0_protected)
  have ki: "iena ?k = 1" by (simp add: ro0_fields)
  have pm: "pde_marked ?k 0x100000 = pde_marked ro0 0x100000"
    by (simp add: pde_marked_def walk_pde_def pde_ptr_def)
  have ke: "exec SX 0 ?k =
      (Exception, ?k\<lparr>host := pde_marked ro0 0x100000, trap := FWPAGE, vadr := 0x100000\<rparr>)"
    using exec_store_protected [OF ka kp] by (simp add: pm)
  have kf: "fst (exec SX 0 ?k) = Exception" "trap (snd (exec SX 0 ?k)) = FWPAGE"
    unfolding ke by simp_all
  have kd: "fst (deliver (exec SX 0 ?k)) = Fatal"
    unfolding ke using ro0_stack_fault
    by (simp add: deliver_def exception_entry_def ro0_fields interrupt_entry_fst)
  show ?thesis
    using ra rp f rd a selfmap0_protected m g h0 ka kp ki kf kd by blast
qed

text \<open>
  C6, amended. For every store \<open>SX\<close>, \<open>SXH\<close>, \<open>SXB\<close>, \<open>SXD\<close>, \<open>SXF\<close>, \<open>SG\<close>, \<open>SGH\<close>,
  \<open>SGB\<close>, \<open>SGD\<close>, \<open>SGF\<close>, and \<open>SL\<close>, \<open>SLH\<close>, \<open>SLB\<close>, \<open>SLD\<close>, \<open>SLF\<close> outside the stack
  window, at an address \<open>v\<close> with no cached write translation whose walk finds the PDE
  present and in memory, the PTE present, and \<open>q & W = 0\<close>: the case leaves for the
  exception label with \<open>trap = FWPAGE\<close> and \<open>vadr = v\<close>, and host memory is unchanged but
  for the accessed bit (0x20) set in the low byte of the PDE. Then, when \<open>iena\<close> is nonzero
  and the two pushes on the kernel stack translate, delivery goes to \<open>fixpc\<close> in kernel
  ring with the guest program counter \<open>xpc - tpc\<close> equal to \<open>ivec\<close>, \<open>vadr = v\<close> and
  \<open>trap = FWPAGE\<close>, with \<open>USER\<close> or-ed in when the store ran in user ring; in every other
  case the processor stops at \<open>fatal\<close>.
\<close>

theorem store_protected:
  assumes "store_address op immediate s = Some v" and "write_protected s v"
  shows "fst (exec op immediate s) = Exception
     \<and> trap (snd (exec op immediate s)) = FWPAGE
     \<and> vadr (snd (exec op immediate s)) = v
     \<and> host (snd (exec op immediate s)) = (host s)(pde_ptr s v := host s (pde_ptr s v) OR 0x20)
     \<and> (if iena s \<noteq> 0 \<and> pushes_translate (snd (exec op immediate s))
         then fst (deliver (exec op immediate s)) = FixPc
            \<and> xpc (snd (deliver (exec op immediate s)))
                - tpc (snd (deliver (exec op immediate s))) = ivec s
            \<and> vadr (snd (deliver (exec op immediate s))) = v
            \<and> trap (snd (deliver (exec op immediate s))) =
                (if user s \<noteq> 0 then FWPAGE OR USER else FWPAGE)
            \<and> user (snd (deliver (exec op immediate s))) = 0
         else fst (deliver (exec op immediate s)) = Fatal)"
proof -
  let ?s1 = "s\<lparr>host := pde_marked s v, trap := FWPAGE, vadr := v\<rparr>"
  have e: "exec op immediate s = (Exception, ?s1)"
    using assms by (rule exec_store_protected)
  have f: "fst (exec op immediate s) = Exception" "trap (snd (exec op immediate s)) = FWPAGE"
    "vadr (snd (exec op immediate s)) = v"
    "host (snd (exec op immediate s)) = (host s)(pde_ptr s v := host s (pde_ptr s v) OR 0x20)"
    unfolding e by (simp_all add: pde_marked_byte)
  have u: "user ?s1 = user s" "ivec ?s1 = ivec s" "vadr ?s1 = v" "trap ?s1 = FWPAGE" by simp_all
  have g: "if iena s \<noteq> 0 \<and> pushes_translate (snd (exec op immediate s))
         then fst (deliver (exec op immediate s)) = FixPc
            \<and> xpc (snd (deliver (exec op immediate s)))
                - tpc (snd (deliver (exec op immediate s))) = ivec s
            \<and> vadr (snd (deliver (exec op immediate s))) = v
            \<and> trap (snd (deliver (exec op immediate s))) =
                (if user s \<noteq> 0 then FWPAGE OR USER else FWPAGE)
            \<and> user (snd (deliver (exec op immediate s))) = 0
         else fst (deliver (exec op immediate s)) = Fatal"
  proof (cases "iena s = 0")
    case True
    then show ?thesis unfolding e by (simp add: deliver_def exception_entry_def)
  next
    case False
    then have d: "deliver (exec op immediate s) = interrupt_entry ?s1"
      unfolding e by (simp add: deliver_def exception_entry_def)
    have s: "snd (exec op immediate s) = ?s1" unfolding e by simp
    show ?thesis
    proof (cases "pushes_translate ?s1")
      case True
      show ?thesis
        using interrupt_entry_vector [OF True] True False unfolding d s u by simp
    next
      case no: False
      then show ?thesis unfolding d s by (simp add: interrupt_entry_fst)
    qed
  qed
  show ?thesis using f g by blast
qed


text \<open>
  In the machine with page 0x100 read-only, interrupts enabled and the kernel stack page in
  the cache, \<open>SX\<close> and \<open>SXD\<close> with \<open>b = 0x100000\<close>, and \<open>SLF\<close> with the offset
  \<open>0xF8000\<close> from the stack pointer 0x8000, fault at 0x100000, and the vector at 0x40
  receives control.
\<close>

lemma ro0_pushes:
  "pushes_translate (ro0\<lparr>host := pde_marked ro0 0x100000, trap := FWPAGE, vadr := 0x100000\<rparr>)"
proof -
  have k: "cur_write ro0 7 = 0x10000001" by (simp add: cur_write_def ro0_fields)
  show ?thesis
    by (simp add: pushes_translate_def trap_frame_def Let_def ro0_fields tr_write_hit
        cur_write_frame k)
qed

theorem store_protected_witness:
  "store_address SX 0 ro0 = Some 0x100000
   \<and> write_protected ro0 0x100000
   \<and> iena ro0 = 1
   \<and> pushes_translate (snd (exec SX 0 ro0))
   \<and> fst (exec SX 0 ro0) = Exception
   \<and> trap (snd (exec SX 0 ro0)) = FWPAGE
   \<and> vadr (snd (exec SX 0 ro0)) = 0x100000
   \<and> host (snd (exec SX 0 ro0)) = (host ro0)(0x10001000 := 0x27)
   \<and> fst (deliver (exec SX 0 ro0)) = FixPc
   \<and> xpc (snd (deliver (exec SX 0 ro0))) - tpc (snd (deliver (exec SX 0 ro0))) = 0x40
   \<and> vadr (snd (deliver (exec SX 0 ro0))) = 0x100000
   \<and> trap (snd (deliver (exec SX 0 ro0))) = FWPAGE
   \<and> user (snd (deliver (exec SX 0 ro0))) = 0
   \<and> store_address SXD 0 ro0 = Some 0x100000
   \<and> pushes_translate (snd (exec SXD 0 ro0))
   \<and> fst (exec SXD 0 ro0) = Exception
   \<and> host (snd (exec SXD 0 ro0)) = (host ro0)(0x10001000 := 0x27)
   \<and> fst (deliver (exec SXD 0 ro0)) = FixPc
   \<and> xpc (snd (deliver (exec SXD 0 ro0))) - tpc (snd (deliver (exec SXD 0 ro0))) = 0x40
   \<and> vadr (snd (deliver (exec SXD 0 ro0))) = 0x100000
   \<and> store_address SLF 0xF800000 ro0 = Some 0x100000
   \<and> pushes_translate (snd (exec SLF 0xF800000 ro0))
   \<and> fst (exec SLF 0xF800000 ro0) = Exception
   \<and> host (snd (exec SLF 0xF800000 ro0)) = (host ro0)(0x10001000 := 0x27)
   \<and> fst (deliver (exec SLF 0xF800000 ro0)) = FixPc
   \<and> vadr (snd (deliver (exec SLF 0xF800000 ro0))) = 0x100000"
proof -
  let ?s1 = "ro0\<lparr>host := pde_marked ro0 0x100000, trap := FWPAGE, vadr := 0x100000\<rparr>"
  have a: "store_address SX 0 ro0 = Some 0x100000" by (simp add: imm8_def ro0_fields)
  have b: "store_address SXD 0 ro0 = Some 0x100000" by (simp add: imm8_def ro0_fields)
  have i: "imm8 0xF800000 = 0xF8000" by (simp add: imm8_def)
  have c: "store_address SLF 0xF800000 ro0 = Some 0x100000"
    by (simp add: i ro0_fields ro0_def boot0_def power_on_def)
  have h: "host ro0 0x10001000 = 0x07" by (simp add: ro0_fields store32_def)
  have pa: "pushes_translate (snd (exec SX 0 ro0))"
    unfolding exec_store_protected [OF a ro0_protected] using ro0_pushes by simp
  have pb: "pushes_translate (snd (exec SXD 0 ro0))"
    unfolding exec_store_protected [OF b ro0_protected] using ro0_pushes by simp
  have pc: "pushes_translate (snd (exec SLF 0xF800000 ro0))"
    unfolding exec_store_protected [OF c ro0_protected] using ro0_pushes by simp
  have wa: "fst (exec SX 0 ro0) = Exception
     \<and> trap (snd (exec SX 0 ro0)) = FWPAGE
     \<and> vadr (snd (exec SX 0 ro0)) = 0x100000
     \<and> host (snd (exec SX 0 ro0)) = (host ro0)(0x10001000 := 0x27)
     \<and> fst (deliver (exec SX 0 ro0)) = FixPc
     \<and> xpc (snd (deliver (exec SX 0 ro0))) - tpc (snd (deliver (exec SX 0 ro0))) = 0x40
     \<and> vadr (snd (deliver (exec SX 0 ro0))) = 0x100000
     \<and> trap (snd (deliver (exec SX 0 ro0))) = FWPAGE
     \<and> user (snd (deliver (exec SX 0 ro0))) = 0"
    using store_protected [OF a ro0_protected] pa
    by (simp add: ro0_fields(2,6,7) ro0_walk h)
  have wb: "fst (exec SXD 0 ro0) = Exception
     \<and> host (snd (exec SXD 0 ro0)) = (host ro0)(0x10001000 := 0x27)
     \<and> fst (deliver (exec SXD 0 ro0)) = FixPc
     \<and> xpc (snd (deliver (exec SXD 0 ro0))) - tpc (snd (deliver (exec SXD 0 ro0))) = 0x40
     \<and> vadr (snd (deliver (exec SXD 0 ro0))) = 0x100000"
    using store_protected [OF b ro0_protected] pb
    by (simp add: ro0_fields(2,6,7) ro0_walk h)
  have wc: "fst (exec SLF 0xF800000 ro0) = Exception
     \<and> host (snd (exec SLF 0xF800000 ro0)) = (host ro0)(0x10001000 := 0x27)
     \<and> fst (deliver (exec SLF 0xF800000 ro0)) = FixPc
     \<and> vadr (snd (deliver (exec SLF 0xF800000 ro0))) = 0x100000"
    using store_protected [OF c ro0_protected] pc
    by (simp add: ro0_fields(2,6,7) ro0_walk h)
  show ?thesis
    using a ro0_protected ro0_fields(6) pa wa b pb wb c pc wc by blast
qed


section \<open>Pending interrupts: \<open>STI\<close> and \<open>RTI\<close>\<close>












section \<open>Block memory operations are restartable\<close>












lemma chunk2_min:
  "chunk2 x y n = min (4096 - (x AND 0xfff)) (min (4096 - (y AND 0xfff)) n)"
  by (auto simp: chunk2_def chunk1_def Let_def min_def)

lemma chunk1_min: "chunk1 x n = min (4096 - (x AND 0xfff)) n"
  by (auto simp: chunk1_def Let_def min_def)










lemma advance_sum:
  fixes x n u :: u32
  shows "x + u + (n - u) = x + n"
  by simp





































































































end
